theory Spec2Isabelle
  imports Main
begin

section \<open>Storage\<close>

text \<open>
  The application keeps its data in one relational database through Django's ORM.
  A table is the list of its rows in the order of their insertion.  The primary key
  of a row is drawn from the table's sequence, which only grows.

  A user is identified by its email address (the spec's "unique natural identifier").
\<close>

type_synonym user = string

text \<open>
  \<^verbatim>\<open>class List(models.Model)\<close>: the primary key \<open>id\<close> and the nullable foreign key
  \<open>owner\<close>.  (\<open>id\<close> is a constant of HOL, hence the prefixed field names.)
\<close>

record list_row =
  List_id :: nat
  List_owner :: "user option"

text \<open>
  \<^verbatim>\<open>class Item(models.Model)\<close>: the primary key, \<open>text = TextField(default='')\<close> and
  \<open>list = ForeignKey(List)\<close>, kept as the key of the row it points to.
\<close>

record item_row =
  Item_id :: nat
  Item_text :: string
  Item_list :: nat

text \<open>
  Modelled from the spec: the \<open>Token\<close> model (\<open>accounts/models.py\<close> is not among the
  sources; \<open>accounts/views.py\<close> imports it).  Section 3 of the spec gives a Token a
  \<open>uid\<close>, "an opaque unique string" generated at creation time, and the \<open>email\<close> it
  was issued for; \<open>created_at\<close> is "used only for ordering/audit" and is left out.
\<close>

record token_row =
  Token_uid :: string
  Token_email :: string

text \<open>
  The exceptions of the code.  A violated constraint of the schema raises
  \<open>IntegrityError\<close> (the unique pair of an item, a foreign key without its row, the
  unique email of a user); a storage engine that cannot serve a statement raises a storage
  fault; \<open>None.text\<close> raises \<open>AttributeError\<close>; \<open>request.POST['email']\<close> on a missing
  key raises \<open>KeyError\<close>; the mailer raises its own failure.
\<close>

datatype violation = UniqueTogether | ForeignKey | UniqueEmail

datatype exn =
    IntegrityError violation
  | StorageFault
  | AttributeError
  | KeyError
  | MailerFailure

text \<open>
  The database.  \<open>faults\<close> is the part of the environment that decides whether the
  storage engine serves the coming INSERT statements: every INSERT consumes the head,
  and \<open>True\<close> there makes that statement raise a storage fault and write nothing.
  An empty list means that no further statement faults.  Nothing in the code opens a
  transaction, so every statement that succeeds is committed on its own (Django's
  autocommit).
\<close>

record db =
  List_table :: "list_row list"
  Item_table :: "item_row list"
  List_seq :: nat
  Item_seq :: nat
  Token_table :: "token_row list"
  User_table :: "user list"
  faults :: "bool list"

definition empty_db :: "bool list \<Rightarrow> db" where
  "empty_db fs =
     \<lparr>List_table = [], Item_table = [], List_seq = 1, Item_seq = 1,
      Token_table = [], User_table = [], faults = fs\<rparr>"

definition next_fault :: "db \<Rightarrow> bool \<times> db" where
  "next_fault d =
     (case faults d of
        [] \<Rightarrow> (False, d)
      | f # fs \<Rightarrow> (f, d\<lparr>faults := fs\<rparr>))"

definition storage_ok :: "db \<Rightarrow> bool" where
  "storage_ok d = (\<not> fst (next_fault d))"

section \<open>lists/models.py\<close>

text \<open>
  Modelled from the spec: \<open>User.objects.create(email=...)\<close>, as the tests call it
  (the User model is not among the sources).  Section 3: the email is the user's
  "unique natural identifier" and nothing else is stored.
\<close>

definition User_objects_create :: "string \<Rightarrow> db \<Rightarrow> (exn + user) \<times> db" where
  "User_objects_create addr d =
     (case next_fault d of
        (True, d1) \<Rightarrow> (Inl StorageFault, d1)
      | (False, d1) \<Rightarrow>
          if addr \<in> set (User_table d1)
          then (Inl (IntegrityError UniqueEmail), d1)
          else (Inr addr, d1\<lparr>User_table := User_table d1 @ [addr]\<rparr>))"

text \<open>
  \<^verbatim>\<open>List.objects.create(owner=owner)\<close>: one INSERT into the table of lists.
  \<^verbatim>\<open>owner = models.ForeignKey(settings.AUTH_USER_MODEL, blank=True, null=True, ...)\<close>:
  the owner may be \<open>None\<close>; an owner that is given must be a stored user.
\<close>

definition List_objects_create :: "user option \<Rightarrow> db \<Rightarrow> (exn + list_row) \<times> db" where
  "List_objects_create ownr d =
     (case next_fault d of
        (True, d1) \<Rightarrow> (Inl StorageFault, d1)
      | (False, d1) \<Rightarrow>
          if (case ownr of None \<Rightarrow> False | Some u \<Rightarrow> u \<notin> set (User_table d1))
          then (Inl (IntegrityError ForeignKey), d1)
          else
            (let row = \<lparr>List_id = List_seq d1, List_owner = ownr\<rparr>
             in (Inr row,
                 d1\<lparr>List_table := List_table d1 @ [row], List_seq := Suc (List_seq d1)\<rparr>)))"

text \<open>
  \<^verbatim>\<open>Item.objects.create(text=..., list=...)\<close>: one INSERT into the table of items.
  \<^verbatim>\<open>Meta.unique_together = ('list', 'text')\<close> is a unique constraint of the table on
  the pair, compared as the database compares text (exactly); the foreign key must
  point to a stored list.  \<open>objects.create\<close> runs no field validation, so the empty
  text is stored like any other.
\<close>

definition Item_objects_create :: "string \<Rightarrow> list_row \<Rightarrow> db \<Rightarrow> (exn + item_row) \<times> db" where
  "Item_objects_create txt lst d =
     (case next_fault d of
        (True, d1) \<Rightarrow> (Inl StorageFault, d1)
      | (False, d1) \<Rightarrow>
          if (List_id lst, txt) \<in> set (map (\<lambda>i. (Item_list i, Item_text i)) (Item_table d1))
          then (Inl (IntegrityError UniqueTogether), d1)
          else if List_id lst \<notin> set (map List_id (List_table d1))
          then (Inl (IntegrityError ForeignKey), d1)
          else
            (let row = \<lparr>Item_id = Item_seq d1, Item_text = txt, Item_list = List_id lst\<rparr>
             in (Inr row,
                 d1\<lparr>Item_table := Item_table d1 @ [row], Item_seq := Suc (Item_seq d1)\<rparr>)))"

text \<open>
  \<^verbatim>\<open>
  @staticmethod
  def create_new(first_item_text, owner=None):
      list_ = List.objects.create(owner=owner)
      Item.objects.create(text=first_item_text, list=list_)
      return list_
  \<close>
  An exception of either statement leaves the function at once, with the database as
  the statements before it left it.
\<close>

definition create_new :: "string \<Rightarrow> user option \<Rightarrow> db \<Rightarrow> (exn + list_row) \<times> db" where
  "create_new first_item_text ownr d =
     (case List_objects_create ownr d of
        (Inl e, d1) \<Rightarrow> (Inl e, d1)
      | (Inr lst, d1) \<Rightarrow>
          (case Item_objects_create first_item_text lst d1 of
             (Inl e, d2) \<Rightarrow> (Inl e, d2)
           | (Inr _, d2) \<Rightarrow> (Inr lst, d2)))"

text \<open>
  \<open>self.item_set\<close>: the items whose foreign key is this list, in the order of
  \<^verbatim>\<open>Meta.ordering = ('id',)\<close>.
\<close>

definition item_set :: "list_row \<Rightarrow> db \<Rightarrow> item_row list" where
  "item_set lst d =
     sort_key Item_id (filter (\<lambda>i. Item_list i = List_id lst) (Item_table d))"

text \<open>\<open>QuerySet.first()\<close>: the first row, or \<open>None\<close> when there is none.\<close>

definition first :: "'a list \<Rightarrow> 'a option" where
  "first rows = (case rows of [] \<Rightarrow> None | r # _ \<Rightarrow> Some r)"

text \<open>
  \<^verbatim>\<open>
  @property
  def name(self):
      return self.item_set.first().text
  \<close>
\<close>

definition name :: "list_row \<Rightarrow> db \<Rightarrow> exn + string" where
  "name lst d =
     (case first (item_set lst d) of
        None \<Rightarrow> Inl AttributeError
      | Some i \<Rightarrow> Inr (Item_text i))"

section \<open>Adding an item\<close>

datatype validation_failure = EmptyItemError | DuplicateItemError

text \<open>
  Modelled from the spec: the Item Validator \<open>add_item\<close> of section 4.4
  (\<open>lists/forms.py\<close> and \<open>lists/views.py\<close> are not among the sources; only their
  tests are).  In the spec's words: (1) if the text is empty, fail with
  \<open>EmptyItemError\<close> before touching storage, on both paths; (2) with no list given,
  create a List with the given owner and its first Item, which is what
  \<open>List.create_new\<close> of the source does; (3) with a list given, attempt to create an
  Item under it, translating the storage layer's rejection by the per-list uniqueness
  constraint into \<open>DuplicateItemError\<close>, every other storage failure propagating;
  (4) on success return the persisted Item.  "Empty" is taken as the empty string,
  the case the spec's testable properties name.
\<close>

definition add_item ::
  "list_row option \<Rightarrow> string \<Rightarrow> user option \<Rightarrow> db \<Rightarrow> (exn + validation_failure + item_row) \<times> db"
where
  "add_item list_ref_or_none txt owner_if_new d =
     (if txt = [] then (Inr (Inl EmptyItemError), d)
      else
        (case list_ref_or_none of
           None \<Rightarrow>
             (case create_new txt owner_if_new d of
                (Inl e, d1) \<Rightarrow> (Inl e, d1)
              | (Inr lst, d1) \<Rightarrow>
                  (case first (item_set lst d1) of
                     None \<Rightarrow> (Inl AttributeError, d1)
                   | Some i \<Rightarrow> (Inr (Inr i), d1)))
         | Some lst \<Rightarrow>
             (case Item_objects_create txt lst d of
                (Inl (IntegrityError UniqueTogether), d1) \<Rightarrow> (Inr (Inl DuplicateItemError), d1)
              | (Inl e, d1) \<Rightarrow> (Inl e, d1)
              | (Inr i, d1) \<Rightarrow> (Inr (Inr i), d1))))"

section \<open>Histories of the lists application\<close>

text \<open>
  The calls by which the rows of users, lists and items come into being, and the
  database after a sequence of them.  Every database the lists application can be in is
  \<open>run cs (empty_db fs)\<close> for some calls \<open>cs\<close> and some behaviour \<open>fs\<close> of the
  storage engine.
\<close>

datatype call =
    Call_User_create string
  | Call_List_create "user option"
  | Call_Item_create string list_row
  | Call_create_new string "user option"

fun exec :: "call \<Rightarrow> db \<Rightarrow> db" where
  "exec (Call_User_create addr) d = snd (User_objects_create addr d)"
| "exec (Call_List_create ownr) d = snd (List_objects_create ownr d)"
| "exec (Call_Item_create txt lst) d = snd (Item_objects_create txt lst d)"
| "exec (Call_create_new txt ownr) d = snd (create_new txt ownr d)"

fun run :: "call list \<Rightarrow> db \<Rightarrow> db" where
  "run [] d = d"
| "run (c # cs) d = run cs (exec c d)"

text \<open>
  The invariant of the tables: keys ascend in insertion order and lie below the
  sequence, the pair (list, text) is unique among the items, and every item points to
  a stored list.
\<close>

definition wf_db :: "db \<Rightarrow> bool" where
  "wf_db d \<longleftrightarrow>
     sorted_wrt (<) (map Item_id (Item_table d)) \<and>
     (\<forall>i \<in> set (Item_table d). Item_id i < Item_seq d) \<and>
     distinct (map (\<lambda>i. (Item_list i, Item_text i)) (Item_table d)) \<and>
     (\<forall>i \<in> set (Item_table d). Item_list i \<in> set (map List_id (List_table d))) \<and>
     sorted_wrt (<) (map List_id (List_table d)) \<and>
     (\<forall>l \<in> set (List_table d). List_id l < List_seq d)"

section \<open>accounts/views.py\<close>

text \<open>
  The request object, as far as the two views read and change it: the query and form
  parameters, the scheme and host that \<open>build_absolute_uri\<close> puts in front of a path,
  the user the session is bound to, and the messages queued for the next page.
\<close>

datatype level = DEBUG | INFO | SUCCESS | WARNING | ERROR

record request =
  GET :: "string \<rightharpoonup> string"
  POST :: "string \<rightharpoonup> string"
  scheme_host :: string
  session_user :: "user option"
  messages :: "(level \<times> string) list"

datatype response = HttpResponseRedirect string

record mail =
  subject :: string
  body :: string
  from_email :: string
  recipient_list :: "string list"

text \<open>
  Modelled from the spec: \<open>Token.objects.create(email=email)\<close>, the Token Store's
  \<open>issue\<close> of section 4.1 (the Token model is not among the sources): it "persists a
  record" with a freshly generated uid and the email and "never fails except on
  storage unavailability".  The uid is drawn "from a sufficiently large random/opaque
  space" (section 5); the draw is the argument \<open>new_uid\<close>.
\<close>

definition Token_objects_create :: "string \<Rightarrow> string \<Rightarrow> db \<Rightarrow> (exn + token_row) \<times> db" where
  "Token_objects_create new_uid addr d =
     (case next_fault d of
        (True, d1) \<Rightarrow> (Inl StorageFault, d1)
      | (False, d1) \<Rightarrow>
          (let row = \<lparr>Token_uid = new_uid, Token_email = addr\<rparr>
           in (Inr row, d1\<lparr>Token_table := Token_table d1 @ [row]\<rparr>)))"

text \<open>
  \<open>urllib.parse.quote(s, safe)\<close> on the UTF-8 bytes of a string: a byte that is an
  ASCII letter, a digit, one of \<open>_.-~\<close> or listed in \<open>safe\<close> stays; every other byte
  becomes \<open>%\<close> and its two upper-case hexadecimal digits.
\<close>

definition always_safe :: string where
  "always_safe =
     ''ABCDEFGHIJKLMNOPQRSTUVWXYZabcdefghijklmnopqrstuvwxyz0123456789_.-~''"

definition hex_digit :: "nat \<Rightarrow> char" where
  "hex_digit n = ''0123456789ABCDEF'' ! (n mod 16)"

definition quote :: "string \<Rightarrow> string \<Rightarrow> string" where
  "quote s safe =
     concat (map (\<lambda>c. if c \<in> set always_safe \<or> c \<in> set safe then [c]
                        else [CHR ''%'', hex_digit (of_char c div 16), hex_digit (of_char c)]) s)"

text \<open>
  \<open>django.utils.encoding.iri_to_uri\<close>:
  \<^verbatim>\<open>return quote(iri, safe="/#%[]=:;$&()+,!?*@'~")\<close>.
\<close>

definition iri_safe :: string where
  "iri_safe = ''/#%[]=:;$&()+,!?*@'' @ [CHR 0x27] @ ''~''"

definition iri_to_uri :: "string \<Rightarrow> string" where
  "iri_to_uri iri = quote iri iri_safe"

text \<open>Python's \<open>p in s\<close> for strings.\<close>

fun contains :: "string \<Rightarrow> string \<Rightarrow> bool" where
  "contains [] p = (p = [])"
| "contains (c # s) p = (take (length p) (c # s) = p \<or> contains s p)"

text \<open>
  \<open>request.build_absolute_uri(location)\<close>.  Django splits the location
  (\<open>urlsplit\<close>).  When it has no scheme and no host, its path starts with \<open>/\<close> and
  holds neither \<open>/./\<close> nor \<open>/../\<close>, the scheme and host of the request are put in
  front of it; any other location is resolved against the URL of the request
  (\<open>urljoin\<close>).  The result goes through \<open>iri_to_uri\<close>.

  \<open>plain_absolute_path\<close> holds of locations of the first kind: they start with one
  \<open>/\<close> and not two, so that \<open>urlsplit\<close> finds no scheme and no host; they hold no
  tab, line feed or carriage return, which \<open>urlsplit\<close> would drop before it looks at
  the path; and the path, which ends before the first \<open>?\<close> or \<open>#\<close>, has no dot
  segment.  What Django makes of every other location is the argument \<open>resolve\<close>.
\<close>

definition plain_absolute_path :: "string \<Rightarrow> bool" where
  "plain_absolute_path location \<longleftrightarrow>
     take 1 location = ''/'' \<and> take 2 location \<noteq> ''//'' \<and>
     CHR 0x09 \<notin> set location \<and> CHR 0x0A \<notin> set location \<and> CHR 0x0D \<notin> set location \<and>
     \<not> contains (takeWhile (\<lambda>c. c \<noteq> CHR ''?'' \<and> c \<noteq> CHR ''#'') location) ''/./'' \<and>
     \<not> contains (takeWhile (\<lambda>c. c \<noteq> CHR ''?'' \<and> c \<noteq> CHR ''#'') location) ''/../''"

definition build_absolute_uri ::
  "(request \<Rightarrow> string \<Rightarrow> string) \<Rightarrow> request \<Rightarrow> string \<Rightarrow> string"
where
  "build_absolute_uri resolve req location =
     iri_to_uri (if plain_absolute_path location then scheme_host req @ location
                 else resolve req location)"

text \<open>
  \<open>EmailMessage.recipients()\<close>:
  \<^verbatim>\<open>[email for email in (self.to + self.cc + self.bcc) if email]\<close>; the view gives
  only \<open>to\<close>.  \<open>EmailMessage.send()\<close> returns at once, sending nothing, when there
  are none.
\<close>

definition recipients :: "mail \<Rightarrow> string list" where
  "recipients m = filter (\<lambda>addr. addr \<noteq> []) (recipient_list m)"

text \<open>\<open>messages.success(request, text)\<close> queues the text at level \<open>SUCCESS\<close>.\<close>

definition messages_success :: "request \<Rightarrow> string \<Rightarrow> request" where
  "messages_success req txt = req\<lparr>messages := messages req @ [(SUCCESS, txt)]\<rparr>"

text \<open>
  The text of the confirmation, a Russian sentence in the source ("check your mail,
  we have sent you a link that you can use to log in to the site"), as its UTF-8 bytes.
\<close>

definition confirmation :: string where
  "confirmation = map char_of
     [208, 159, 209, 128, 208, 190, 208, 178, 208, 181, 209, 128, 209, 140, 209, 130,
      208, 181, 32, 209, 129, 208, 178, 208, 190, 209, 142, 32, 208, 191, 208, 190,
      209, 135, 209, 130, 209, 131, 44, 32, 208, 188, 209, 139, 32, 208, 190, 209,
      130, 208, 191, 209, 128, 208, 176, 208, 178, 208, 184, 208, 187, 208, 184, 32,
      208, 146, 208, 176, 208, 188, 32, 209, 129, 209, 129, 209, 139, 208, 187, 208,
      186, 209, 131, 44, 32, 208, 186, 208, 190, 209, 130, 208, 190, 209, 128, 209,
      131, 209, 142, 32, 208, 188, 208, 190, 208, 182, 208, 189, 208, 190, 32, 208,
      184, 209, 129, 208, 191, 208, 190, 208, 187, 209, 140, 208, 183, 208, 190, 208,
      178, 208, 176, 209, 130, 209, 140, 32, 208, 180, 208, 187, 209, 143, 32, 208,
      178, 209, 133, 208, 190, 208, 180, 208, 176, 32, 208, 189, 208, 176, 32, 209,
      129, 208, 176, 208, 185, 209, 130, 46 :: nat]"

text \<open>
  \<^verbatim>\<open>
  def send_login_email(request):
      email = request.POST['email']
      token = Token.objects.create(email=email)
      url = request.build_absolute_uri(reverse('login') + '?token=' + str(token.uid))
      message_body = f'Use this link to log in:\n\n{url}'
      send_mail('Your login link for Superlists', message_body,
                'noreply@superlists', [email])
      messages.success(request, "...")
      return redirect('/')
  \<close>
  Four things the view uses are outside the sources and are arguments here:
  \<open>reverse_login\<close>, the path that the URL configuration gives the route named
  \<open>login\<close>; \<open>resolve\<close>, see \<open>build_absolute_uri\<close>; \<open>send_mail\<close>, the call of the
  mailer, which for a message either returns (\<open>None\<close>) or raises; and \<open>new_uid\<close>, the
  uid drawn for the new token.  The outbox holds the messages that were sent: when the
  call of the mailer returns, the message has been sent if it has a recipient, and
  nothing has been sent if it has none.  The uid is a string, so \<open>str\<close> leaves it
  as it is.
\<close>

definition send_login_email ::
  "string \<Rightarrow> (request \<Rightarrow> string \<Rightarrow> string) \<Rightarrow> (mail \<Rightarrow> exn option) \<Rightarrow> string
     \<Rightarrow> request \<Rightarrow> db \<Rightarrow> mail list
     \<Rightarrow> (exn + response) \<times> request \<times> db \<times> mail list"
where
  "send_login_email reverse_login resolve send_mail new_uid req d outbox =
     (case POST req ''email'' of
        None \<Rightarrow> (Inl KeyError, req, d, outbox)
      | Some addr \<Rightarrow>
          (case Token_objects_create new_uid addr d of
             (Inl e, d1) \<Rightarrow> (Inl e, req, d1, outbox)
           | (Inr token, d1) \<Rightarrow>
               (let url = build_absolute_uri resolve req
                            (reverse_login @ ''?token='' @ Token_uid token);
                    message_body = ''Use this link to log in:'' @ [CHR 0x0A, CHR 0x0A] @ url;
                    m = \<lparr>subject = ''Your login link for Superlists'',
                         body = message_body,
                         from_email = ''noreply@superlists'',
                         recipient_list = [addr]\<rparr>
                in (case send_mail m of
                      Some e \<Rightarrow> (Inl e, req, d1, outbox)
                    | None \<Rightarrow>
                        (Inr (HttpResponseRedirect ''/''),
                         messages_success req confirmation, d1,
                         outbox @ (if recipients m = [] then [] else [m]))))))"

text \<open>
  Collaborators for the examples: a mailer whose call returns for every message, and
  a resolver that leaves a location as it is.
\<close>

definition mailer_up :: "mail \<Rightarrow> exn option" where
  "mailer_up m = None"

definition resolve_none :: "request \<Rightarrow> string \<Rightarrow> string" where
  "resolve_none req location = location"

text \<open>\<open>auth.login(request, user)\<close> binds the session to the user.\<close>

definition auth_login :: "request \<Rightarrow> user \<Rightarrow> request" where
  "auth_login req u = req\<lparr>session_user := Some u\<rparr>"

text \<open>
  \<^verbatim>\<open>
  def login(request):
      user = auth.authenticate(request=request, uid=request.GET.get('token'))
      if user:
          auth.login(request, user)
      return redirect('/')
  \<close>
  \<open>auth.authenticate\<close> hands the credentials to the authentication backend of the
  settings, which is outside the sources and is the argument \<open>backend\<close>: it returns a
  user or \<open>None\<close>, or raises, and may write to the database.  A user object is true.
\<close>

definition login ::
  "(string option \<Rightarrow> db \<Rightarrow> (exn + user option) \<times> db) \<Rightarrow> request \<Rightarrow> db
     \<Rightarrow> (exn + response) \<times> request \<times> db"
where
  "login backend req d =
     (case backend (GET req ''token'') d of
        (Inl e, d1) \<Rightarrow> (Inl e, req, d1)
      | (Inr usr, d1) \<Rightarrow>
          (let req1 = (case usr of Some u \<Rightarrow> auth_login req u | None \<Rightarrow> req)
           in (Inr (HttpResponseRedirect ''/''), req1, d1)))"

text \<open>
  Modelled from the spec: the Token Store's \<open>find_by_uid\<close> (section 4.1, "exact
  lookup") and the Authenticator's \<open>authenticate\<close> (section 4.2); the authentication
  backend and the User model are not among the sources.  In the spec's words: (1) an
  absent or empty uid gives \<open>None\<close>; (2) a uid with no token gives \<open>None\<close>; (3) the
  user whose email is the token's is returned if it exists, and is created and
  returned otherwise; storage errors propagate.
\<close>

definition find_by_uid :: "string \<Rightarrow> db \<Rightarrow> token_row option" where
  "find_by_uid u d = find (\<lambda>t. Token_uid t = u) (Token_table d)"

definition authenticate :: "string option \<Rightarrow> db \<Rightarrow> (exn + user option) \<times> db" where
  "authenticate uid_opt d =
     (case uid_opt of
        None \<Rightarrow> (Inr None, d)
      | Some u \<Rightarrow>
          if u = [] then (Inr None, d)
          else
            (case find_by_uid u d of
               None \<Rightarrow> (Inr None, d)
             | Some token \<Rightarrow>
                 if Token_email token \<in> set (User_table d)
                 then (Inr (Some (Token_email token)), d)
                 else
                   (case next_fault d of
                      (True, d1) \<Rightarrow> (Inl StorageFault, d1)
                    | (False, d1) \<Rightarrow>
                        (Inr (Some (Token_email token)),
                         d1\<lparr>User_table := User_table d1 @ [Token_email token]\<rparr>))))"

section \<open>The invariant of the tables\<close>

lemma next_fault_tables [simp]:
  "List_table (snd (next_fault d)) = List_table d"
  "Item_table (snd (next_fault d)) = Item_table d"
  "List_seq (snd (next_fault d)) = List_seq d"
  "Item_seq (snd (next_fault d)) = Item_seq d"
  "Token_table (snd (next_fault d)) = Token_table d"
  "User_table (snd (next_fault d)) = User_table d"
  by (simp_all add: next_fault_def split: list.splits)

lemma wf_db_next_fault: "wf_db (snd (next_fault d)) = wf_db d"
  by (simp add: wf_db_def)

lemma wf_db_empty: "wf_db (empty_db fs)"
  by (simp add: wf_db_def empty_db_def)

lemma wf_db_List: "wf_db d \<Longrightarrow> wf_db (snd (List_objects_create ownr d))"
  unfolding List_objects_create_def
  apply (cases "next_fault d")
  subgoal for f d1
    using wf_db_next_fault [of d] next_fault_tables [of d]
    apply (cases f)
     apply (auto simp: wf_db_def Let_def sorted_wrt_append less_Suc_eq)
    done
  done

lemma wf_db_User: "wf_db d \<Longrightarrow> wf_db (snd (User_objects_create addr d))"
  unfolding User_objects_create_def
  apply (cases "next_fault d")
  subgoal for f d1
    using wf_db_next_fault [of d] next_fault_tables [of d]
    apply (cases f)
     apply (auto simp: wf_db_def)
    done
  done

lemma wf_db_Item: "wf_db d \<Longrightarrow> wf_db (snd (Item_objects_create txt lst d))"
  unfolding Item_objects_create_def
  apply (cases "next_fault d")
  subgoal for f d1
    using wf_db_next_fault [of d] next_fault_tables [of d]
    apply (cases f)
     apply (auto simp: wf_db_def Let_def sorted_wrt_append less_Suc_eq)
    done
  done

lemma wf_db_create_new: "wf_db d \<Longrightarrow> wf_db (snd (create_new t ownr d))"
  unfolding create_new_def
  using wf_db_List [of d ownr] wf_db_Item [of "snd (List_objects_create ownr d)" t]
  by (auto split: prod.splits sum.splits) (metis snd_conv)+

lemma wf_db_exec: "wf_db d \<Longrightarrow> wf_db (exec c d)"
  by (cases c) (simp_all add: wf_db_User wf_db_List wf_db_Item wf_db_create_new)

lemma wf_db_run: "wf_db d \<Longrightarrow> wf_db (run cs d)"
  by (induction cs arbitrary: d) (simp_all add: wf_db_exec)

lemma wf_db_history: "wf_db (run cs (empty_db fs))"
  by (rule wf_db_run) (rule wf_db_empty)

lemma item_set_creation_order:
  assumes "wf_db d"
  shows "item_set lst d = filter (\<lambda>i. Item_list i = List_id lst) (Item_table d)"
proof -
  from assms have "sorted_wrt (\<lambda>x y. Item_id x < Item_id y) (Item_table d)"
    by (simp add: wf_db_def sorted_wrt_map)
  then have "sorted_wrt (\<lambda>x y. Item_id x \<le> Item_id y) (Item_table d)"
    by (rule sorted_wrt_mono_rel [rotated]) simp
  then have "sorted_wrt (\<lambda>x y. Item_id x \<le> Item_id y)
               (filter (\<lambda>i. Item_list i = List_id lst) (Item_table d))"
    by (rule sorted_wrt_filter)
  then have "sorted (map Item_id (filter (\<lambda>i. Item_list i = List_id lst) (Item_table d)))"
    by (simp add: sorted_wrt_map)
  then show ?thesis
    unfolding item_set_def by (rule sort_key_id_if_sorted)
qed

lemma Item_objects_create_cases:
  "Item_objects_create txt lst d =
     (if \<not> storage_ok d then (Inl StorageFault, snd (next_fault d))
      else if (List_id lst, txt) \<in> set (map (\<lambda>i. (Item_list i, Item_text i)) (Item_table d))
      then (Inl (IntegrityError UniqueTogether), snd (next_fault d))
      else if List_id lst \<notin> set (map List_id (List_table d))
      then (Inl (IntegrityError ForeignKey), snd (next_fault d))
      else
        (let row = \<lparr>Item_id = Item_seq d, Item_text = txt, Item_list = List_id lst\<rparr>
         in (Inr row,
             (snd (next_fault d))\<lparr>Item_table := Item_table d @ [row], Item_seq := Suc (Item_seq d)\<rparr>)))"
  unfolding Item_objects_create_def storage_ok_def
  using next_fault_tables [of d]
  by (cases "next_fault d") (auto simp: Let_def)

lemma List_objects_create_cases:
  "List_objects_create ownr d =
     (if \<not> storage_ok d then (Inl StorageFault, snd (next_fault d))
      else if \<not> set_option ownr \<subseteq> set (User_table d)
      then (Inl (IntegrityError ForeignKey), snd (next_fault d))
      else
        (let row = \<lparr>List_id = List_seq d, List_owner = ownr\<rparr>
         in (Inr row,
             (snd (next_fault d))\<lparr>List_table := List_table d @ [row], List_seq := Suc (List_seq d)\<rparr>)))"
  unfolding List_objects_create_def storage_ok_def
  using next_fault_tables [of d]
  by (cases "next_fault d") (auto simp: Let_def split: option.splits)

lemma item_set_texts:
  "wf_db d \<Longrightarrow> distinct (map Item_text (item_set lst d))"
proof -
  assume wf: "wf_db d"
  then have "distinct (map (\<lambda>i. (Item_list i, Item_text i)) (Item_table d))"
    by (simp add: wf_db_def)
  then have "distinct (map (\<lambda>i. (Item_list i, Item_text i))
                 (filter (\<lambda>i. Item_list i = List_id lst) (Item_table d)))"
    by (rule distinct_map_filter)
  then have "distinct (map Item_text (filter (\<lambda>i. Item_list i = List_id lst) (Item_table d)))"
    by (auto simp: distinct_map inj_on_def)
  with wf show ?thesis by (simp add: item_set_creation_order)
qed

lemma item_set_append:
  assumes "wf_db d" "Item_table d' = Item_table d @ [row]" "wf_db d'"
  shows "item_set lst d' = item_set lst d @ (if Item_list row = List_id lst then [row] else [])"
  using assms by (simp add: item_set_creation_order)

lemma Item_objects_create_ok:
  assumes "storage_ok d"
    and "txt \<notin> set (map Item_text (filter (\<lambda>i. Item_list i = List_id lst) (Item_table d)))"
    and "List_id lst \<in> set (map List_id (List_table d))"
  shows "Item_objects_create txt lst d =
     (Inr \<lparr>Item_id = Item_seq d, Item_text = txt, Item_list = List_id lst\<rparr>,
      (snd (next_fault d))\<lparr>Item_table := Item_table d @
          [\<lparr>Item_id = Item_seq d, Item_text = txt, Item_list = List_id lst\<rparr>],
        Item_seq := Suc (Item_seq d)\<rparr>)"
  using assms by (auto simp: Item_objects_create_cases Let_def)

text \<open>Evaluating the operations on a concrete database.\<close>

lemmas eval_defs = create_new_def List_objects_create_def Item_objects_create_def
  User_objects_create_def next_fault_def empty_db_def Let_def item_set_def storage_ok_def

section \<open>Uniqueness of text within a list\<close>

text \<open>
  The comparison of texts is the equality of strings: \<open>''Milk''\<close> is added to a
  list that holds \<open>''milk''\<close>.
\<close>

lemma text_comparison_is_exact:
  "fst (Item_objects_create ''Milk'' \<lparr>List_id = 1, List_owner = None\<rparr>
       (run [Call_create_new ''milk'' None] (empty_db []))) =
     Inr \<lparr>Item_id = 2, Item_text = ''Milk'', Item_list = 1\<rparr>"
  by (simp add: eval_defs)

text \<open>
  Claim C1.  In every database that the lists application reaches, the items of any
  one list have pairwise different texts.  The constraint is per list: when a text is
  held by an item of one list and by no item of another stored list, and the storage
  engine serves the write, creating an item with that text in the other list succeeds,
  and afterwards both lists hold an item with that text.
\<close>

theorem text_unique_per_list:
  assumes "d = run cs (empty_db fs)"
  shows "distinct (map Item_text (item_set lst d)) \<and>
     (List_id l1 \<noteq> List_id l2 \<and> l2 \<in> set (List_table d) \<and> storage_ok d \<and>
      txt \<in> set (map Item_text (item_set l1 d)) \<and>
      txt \<notin> set (map Item_text (item_set l2 d)) \<longrightarrow>
      (\<exists>i d'. Item_objects_create txt l2 d = (Inr i, d') \<and>
         txt \<in> set (map Item_text (item_set l1 d')) \<and>
         txt \<in> set (map Item_text (item_set l2 d'))))"
proof (intro conjI impI)
  have wf: "wf_db d" using assms by (simp add: wf_db_history)
  then show "distinct (map Item_text (item_set lst d))" by (rule item_set_texts)
  assume h: "List_id l1 \<noteq> List_id l2 \<and> l2 \<in> set (List_table d) \<and> storage_ok d \<and>
      txt \<in> set (map Item_text (item_set l1 d)) \<and>
      txt \<notin> set (map Item_text (item_set l2 d))"
  let ?row = "\<lparr>Item_id = Item_seq d, Item_text = txt, Item_list = List_id l2\<rparr>"
  let ?d' = "(snd (next_fault d))\<lparr>Item_table := Item_table d @ [?row],
        Item_seq := Suc (Item_seq d)\<rparr>"
  from h wf have c: "Item_objects_create txt l2 d = (Inr ?row, ?d')"
    by (intro Item_objects_create_ok) (auto simp: item_set_creation_order)
  have "wf_db (snd (Item_objects_create txt l2 d))" using wf by (rule wf_db_Item)
  with c have wf': "wf_db ?d'" by simp
  have "txt \<in> set (map Item_text (item_set l1 ?d'))"
    using h wf wf' by (auto simp: item_set_creation_order)
  moreover have "txt \<in> set (map Item_text (item_set l2 ?d'))"
    using wf' by (auto simp: item_set_creation_order)
  ultimately show "\<exists>i d'. Item_objects_create txt l2 d = (Inr i, d') \<and>
         txt \<in> set (map Item_text (item_set l1 d')) \<and>
         txt \<in> set (map Item_text (item_set l2 d'))"
    using c by blast
qed

theorem text_unique_per_list_witness:
  "distinct (map Item_text (item_set \<lparr>List_id = 1, List_owner = None\<rparr>
       (run [Call_create_new ''milk'' None, Call_List_create None] (empty_db [])))) \<and>
   (\<exists>i d'. Item_objects_create ''milk'' \<lparr>List_id = 2, List_owner = None\<rparr>
       (run [Call_create_new ''milk'' None, Call_List_create None] (empty_db [])) = (Inr i, d') \<and>
      ''milk'' \<in> set (map Item_text (item_set \<lparr>List_id = 1, List_owner = None\<rparr> d')) \<and>
      ''milk'' \<in> set (map Item_text (item_set \<lparr>List_id = 2, List_owner = None\<rparr> d')))"
  using text_unique_per_list [of "run [Call_create_new ''milk'' None, Call_List_create None] (empty_db [])"
      "[Call_create_new ''milk'' None, Call_List_create None]" "[]"
      "\<lparr>List_id = 1, List_owner = None\<rparr>" "\<lparr>List_id = 1, List_owner = None\<rparr>"
      "\<lparr>List_id = 2, List_owner = None\<rparr>" "''milk''"]
  by (simp add: eval_defs)

section \<open>Order of the items of a list\<close>

lemma faults_next_fault [simp]: "faults (snd (next_fault d)) = tl (faults d)"
  by (simp add: next_fault_def split: list.splits)

lemma storage_ok_faults: "storage_ok d \<longleftrightarrow> (case faults d of [] \<Rightarrow> True | f # _ \<Rightarrow> \<not> f)"
  by (simp add: storage_ok_def next_fault_def split: list.splits)

lemma two_writes_served:
  assumes "True \<notin> set (take 2 (faults d))" "faults d1 = tl (faults d)"
  shows "storage_ok d" "storage_ok d1"
proof -
  show "storage_ok d" using assms(1)
    by (cases "faults d") (auto simp: storage_ok_faults)
  show "storage_ok d1" using assms
    by (cases "faults d"; cases "tl (faults d)") (auto simp: storage_ok_faults take_Suc_conv_app_nth numeral_2_eq_2)
qed

text \<open>
  Claim C5.  Whatever the table of items holds and in whatever order, the items of a
  list are retrieved in ascending order of their ids, and they are the rows of the
  table that belong to the list, each once.  In every database that the application
  reaches the ids are strictly ascending and this is the order of creation: the
  retrieved sequence is the list's part of the table as it was written.  In
  particular, when two different texts that the list does not hold are added one
  after the other to a stored list, and the storage engine serves both writes, both
  adds succeed and the list's items are then the former ones followed by the first
  text's item and then the second's.  (The texts need not be non-empty for this.)
\<close>

theorem items_in_creation_order:
  assumes "d = run cs (empty_db fs)"
  shows "sorted (map Item_id (item_set lst d0)) \<and>
     set (item_set lst d0) = {i \<in> set (Item_table d0). Item_list i = List_id lst} \<and>
     length (item_set lst d0) =
       length (filter (\<lambda>i. Item_list i = List_id lst) (Item_table d0)) \<and>
     sorted_wrt (<) (map Item_id (item_set lst d)) \<and>
     item_set lst d = filter (\<lambda>i. Item_list i = List_id lst) (Item_table d) \<and>
     (t1 \<noteq> t2 \<and> lst \<in> set (List_table d) \<and> True \<notin> set (take 2 (faults d)) \<and>
      t1 \<notin> set (map Item_text (item_set lst d)) \<and>
      t2 \<notin> set (map Item_text (item_set lst d)) \<longrightarrow>
      (\<exists>i1 d1 i2 d2.
         Item_objects_create t1 lst d = (Inr i1, d1) \<and>
         Item_objects_create t2 lst d1 = (Inr i2, d2) \<and>
         Item_text i1 = t1 \<and> Item_text i2 = t2 \<and> Item_id i1 < Item_id i2 \<and>
         item_set lst d2 = item_set lst d @ [i1, i2]))"
proof (intro conjI impI)
  show "sorted (map Item_id (item_set lst d0))"
    by (simp add: item_set_def)
  show "set (item_set lst d0) = {i \<in> set (Item_table d0). Item_list i = List_id lst}"
    by (auto simp: item_set_def)
  show "length (item_set lst d0) =
       length (filter (\<lambda>i. Item_list i = List_id lst) (Item_table d0))"
    by (simp add: item_set_def)
  have wf: "wf_db d" using assms by (simp add: wf_db_history)
  then show order: "item_set lst d = filter (\<lambda>i. Item_list i = List_id lst) (Item_table d)"
    by (rule item_set_creation_order)
  from wf have "sorted_wrt (\<lambda>x y. Item_id x < Item_id y) (Item_table d)"
    by (simp add: wf_db_def sorted_wrt_map)
  then have "sorted_wrt (\<lambda>x y. Item_id x < Item_id y)
               (filter (\<lambda>i. Item_list i = List_id lst) (Item_table d))"
    by (rule sorted_wrt_filter)
  then show "sorted_wrt (<) (map Item_id (item_set lst d))"
    by (simp add: order sorted_wrt_map)
  assume h: "t1 \<noteq> t2 \<and> lst \<in> set (List_table d) \<and> True \<notin> set (take 2 (faults d)) \<and>
      t1 \<notin> set (map Item_text (item_set lst d)) \<and>
      t2 \<notin> set (map Item_text (item_set lst d))"
  let ?i1 = "\<lparr>Item_id = Item_seq d, Item_text = t1, Item_list = List_id lst\<rparr>"
  let ?d1 = "(snd (next_fault d))\<lparr>Item_table := Item_table d @ [?i1],
        Item_seq := Suc (Item_seq d)\<rparr>"
  let ?i2 = "\<lparr>Item_id = Suc (Item_seq d), Item_text = t2, Item_list = List_id lst\<rparr>"
  let ?d2 = "(snd (next_fault ?d1))\<lparr>Item_table := Item_table d @ [?i1, ?i2],
        Item_seq := Suc (Suc (Item_seq d))\<rparr>"
  from h have nf: "True \<notin> set (take 2 (faults d))" by simp
  have ok: "storage_ok d" "storage_ok ?d1"
    using two_writes_served [OF nf, of ?d1] by simp_all
  have c1: "Item_objects_create t1 lst d = (Inr ?i1, ?d1)"
    using h ok(1) by (intro Item_objects_create_ok) (auto simp: order)
  have c2: "Item_objects_create t2 lst ?d1 = (Inr ?i2, ?d2)"
    using h ok(2) by (subst Item_objects_create_ok) (auto simp: order)
  have "wf_db (snd (Item_objects_create t1 lst d))" using wf by (rule wf_db_Item)
  then have wf1: "wf_db ?d1" by (simp add: c1)
  then have "wf_db (snd (Item_objects_create t2 lst ?d1))" by (rule wf_db_Item)
  then have wf2: "wf_db ?d2" by (simp add: c2)
  have "item_set lst ?d2 = item_set lst d @ [?i1, ?i2]"
    using wf wf2 by (simp add: item_set_creation_order)
  with c1 c2 show "\<exists>i1 d1 i2 d2.
         Item_objects_create t1 lst d = (Inr i1, d1) \<and>
         Item_objects_create t2 lst d1 = (Inr i2, d2) \<and>
         Item_text i1 = t1 \<and> Item_text i2 = t2 \<and> Item_id i1 < Item_id i2 \<and>
         item_set lst d2 = item_set lst d @ [i1, i2]"
    by (intro exI [of _ ?i1] exI [of _ ?d1] exI [of _ ?i2] exI [of _ ?d2]) simp
qed

theorem items_in_creation_order_witness:
  "item_set \<lparr>List_id = 1, List_owner = None\<rparr>
      \<lparr>List_table = [\<lparr>List_id = 1, List_owner = None\<rparr>],
       Item_table = [\<lparr>Item_id = 2, Item_text = ''second'', Item_list = 1\<rparr>,
                     \<lparr>Item_id = 1, Item_text = ''first'', Item_list = 1\<rparr>],
       List_seq = 2, Item_seq = 3, Token_table = [], User_table = [], faults = []\<rparr> =
     [\<lparr>Item_id = 1, Item_text = ''first'', Item_list = 1\<rparr>,
      \<lparr>Item_id = 2, Item_text = ''second'', Item_list = 1\<rparr>] \<and>
   (let d = run [Call_List_create None, Call_create_new ''other'' None] (empty_db []);
        lst = \<lparr>List_id = 1, List_owner = None\<rparr>
    in sorted_wrt (<) (map Item_id (item_set lst d)) \<and>
       item_set lst d = filter (\<lambda>i. Item_list i = List_id lst) (Item_table d) \<and>
       (\<exists>i1 d1 i2 d2.
         Item_objects_create ''itemey 1'' lst d = (Inr i1, d1) \<and>
         Item_objects_create ''itemey 2'' lst d1 = (Inr i2, d2) \<and>
         Item_text i1 = ''itemey 1'' \<and> Item_text i2 = ''itemey 2'' \<and> Item_id i1 < Item_id i2 \<and>
         item_set lst d2 = item_set lst d @ [i1, i2]))"
  using items_in_creation_order [where
      d = "run [Call_List_create None, Call_create_new ''other'' None] (empty_db [])"
      and cs = "[Call_List_create None, Call_create_new ''other'' None]" and fs = "[]"
      and lst = "\<lparr>List_id = 1, List_owner = None\<rparr>"
      and ?t1.0 = "''itemey 1''" and ?t2.0 = "''itemey 2''"
      and ?d0.0 = "\<lparr>List_table = [\<lparr>List_id = 1, List_owner = None\<rparr>],
       Item_table = [\<lparr>Item_id = 2, Item_text = ''second'', Item_list = 1\<rparr>,
                     \<lparr>Item_id = 1, Item_text = ''first'', Item_list = 1\<rparr>],
       List_seq = 2, Item_seq = 3, Token_table = [], User_table = [], faults = []\<rparr>"]
  by (simp add: eval_defs)

section \<open>List.create_new\<close>

lemma fresh_list_has_no_items:
  assumes "wf_db d"
  shows "filter (\<lambda>i. Item_list i = List_seq d) (Item_table d) = []"
proof -
  have "Item_list i \<noteq> List_seq d" if "i \<in> set (Item_table d)" for i
  proof -
    from assms that have "Item_list i \<in> set (map List_id (List_table d))"
      by (simp add: wf_db_def)
    then obtain l where "l \<in> set (List_table d)" "List_id l = Item_list i" by auto
    with assms have "Item_list i < List_seq d" by (auto simp: wf_db_def)
    then show ?thesis by simp
  qed
  then show ?thesis by (simp add: filter_empty_conv)
qed

lemma create_new_cases:
  assumes "wf_db d"
  shows "create_new t ownr d =
     (let lst = \<lparr>List_id = List_seq d, List_owner = ownr\<rparr>;
          d1 = (snd (next_fault d))\<lparr>List_table := List_table d @ [lst],
                 List_seq := Suc (List_seq d)\<rparr>;
          i = \<lparr>Item_id = Item_seq d, Item_text = t, Item_list = List_seq d\<rparr>
      in if \<not> storage_ok d then (Inl StorageFault, snd (next_fault d))
         else if \<not> set_option ownr \<subseteq> set (User_table d)
         then (Inl (IntegrityError ForeignKey), snd (next_fault d))
         else if \<not> storage_ok d1 then (Inl StorageFault, snd (next_fault d1))
         else (Inr lst, (snd (next_fault d1))\<lparr>Item_table := Item_table d @ [i],
                 Item_seq := Suc (Item_seq d)\<rparr>))"
proof -
  from fresh_list_has_no_items [OF assms]
  have "(List_seq d, t) \<notin> set (map (\<lambda>i. (Item_list i, Item_text i)) (Item_table d))"
    by (auto simp: filter_empty_conv)
  then show ?thesis
    by (auto simp: create_new_def List_objects_create_cases Item_objects_create_cases Let_def)
qed

lemma second_write_refused:
  assumes "take 2 (faults d) = [False, True]" "faults d1 = tl (faults d)"
  shows "storage_ok d" "\<not> storage_ok d1"
proof -
  from assms(1) obtain rest where f: "faults d = False # True # rest"
    by (cases "faults d"; cases "tl (faults d)") (auto simp: numeral_2_eq_2)
  show "storage_ok d" using f by (simp add: storage_ok_faults)
  show "\<not> storage_ok d1" using f assms(2) by (simp add: storage_ok_faults)
qed

text \<open>
  Against claim C3 as stated (the List and its first Item are created atomically, so
  that no execution, also one that fails partway, leaves a created List with zero
  Items): when the storage engine serves the first INSERT and not the second,
  \<open>create_new\<close> raises the storage fault and the List row stays, with no Item.
\<close>

theorem create_new_not_atomic_counterexample:
  "create_new ''milk'' None (empty_db [False, True]) =
     (Inl StorageFault,
      \<lparr>List_table = [\<lparr>List_id = 1, List_owner = None\<rparr>], Item_table = [],
       List_seq = 2, Item_seq = 1, Token_table = [], User_table = [], faults = []\<rparr>) \<and>
   item_set \<lparr>List_id = 1, List_owner = None\<rparr>
     (snd (create_new ''milk'' None (empty_db [False, True]))) = []"
  by (simp add: eval_defs)

text \<open>
  Claim C3, amended.  \<open>List.create_new\<close> issues two INSERT statements, each committed
  on its own; no transaction holds them together.  In every database that the
  application reaches:
  \<^item> when the owner is absent or a stored user and the storage engine serves both
    writes, the call returns;
  \<^item> a call that returns has created one List, with the given owner, and one Item,
    which holds the first item text and is the only item of that list;
  \<^item> a call that raises has created no Item, and raises the storage fault or, for an
    owner that is not a stored user, the violation of the owner's foreign key;
  \<^item> when the first write is not served, or the owner is not a stored user, no List is
    created either;
  \<^item> when the first write is served, for an owner that is absent or stored, and the
    second is not, the call raises the storage fault and the List row it has created
    stays in the table, with zero Items.
\<close>

theorem create_new_two_writes:
  assumes "d = run cs (empty_db fs)"
  shows "(set_option ownr \<subseteq> set (User_table d) \<and> True \<notin> set (take 2 (faults d)) \<longrightarrow>
        (\<exists>lst d'. create_new t ownr d = (Inr lst, d'))) \<and>
     (create_new t ownr d = (Inr lst, d') \<longrightarrow>
        List_owner lst = ownr \<and> List_table d' = List_table d @ [lst] \<and>
        (\<exists>i. Item_text i = t \<and> Item_table d' = Item_table d @ [i] \<and>
             item_set lst d' = [i])) \<and>
     (create_new t ownr d = (Inl e, d') \<longrightarrow>
        Item_table d' = Item_table d \<and>
        (e = StorageFault \<or>
         e = IntegrityError ForeignKey \<and> \<not> set_option ownr \<subseteq> set (User_table d))) \<and>
     (\<not> storage_ok d \<longrightarrow>
        fst (create_new t ownr d) = Inl StorageFault \<and>
        List_table (snd (create_new t ownr d)) = List_table d) \<and>
     (storage_ok d \<and> \<not> set_option ownr \<subseteq> set (User_table d) \<longrightarrow>
        fst (create_new t ownr d) = Inl (IntegrityError ForeignKey) \<and>
        List_table (snd (create_new t ownr d)) = List_table d) \<and>
     (set_option ownr \<subseteq> set (User_table d) \<and> take 2 (faults d) = [False, True] \<longrightarrow>
        fst (create_new t ownr d) = Inl StorageFault \<and>
        List_table (snd (create_new t ownr d)) =
          List_table d @ [\<lparr>List_id = List_seq d, List_owner = ownr\<rparr>] \<and>
        item_set \<lparr>List_id = List_seq d, List_owner = ownr\<rparr> (snd (create_new t ownr d)) = [])"
proof -
  have wf: "wf_db d" using assms by (simp add: wf_db_history)
  let ?lst = "\<lparr>List_id = List_seq d, List_owner = ownr\<rparr>"
  let ?d1 = "(snd (next_fault d))\<lparr>List_table := List_table d @ [?lst],
                 List_seq := Suc (List_seq d)\<rparr>"
  let ?i = "\<lparr>Item_id = Item_seq d, Item_text = t, Item_list = List_seq d\<rparr>"
  let ?d2 = "(snd (next_fault ?d1))\<lparr>Item_table := Item_table d @ [?i],
                 Item_seq := Suc (Item_seq d)\<rparr>"
  note cn = create_new_cases [OF wf, of t ownr]
  have wf': "wf_db (snd (create_new t ownr d))" using wf by (rule wf_db_create_new)
  have none: "filter (\<lambda>i. Item_list i = List_seq d) (Item_table d) = []"
    using wf by (rule fresh_list_has_no_items)
  have a: "\<exists>lst d'. create_new t ownr d = (Inr lst, d')"
    if "set_option ownr \<subseteq> set (User_table d) \<and> True \<notin> set (take 2 (faults d))"
  proof -
    from that have nf: "True \<notin> set (take 2 (faults d))" by simp
    show ?thesis
      using two_writes_served [OF nf, of ?d1] that by (simp add: cn Let_def)
  qed
  have b: "List_owner lst = ownr \<and> List_table d' = List_table d @ [lst] \<and>
        (\<exists>i. Item_text i = t \<and> Item_table d' = Item_table d @ [i] \<and> item_set lst d' = [i])"
    if r: "create_new t ownr d = (Inr lst, d')"
  proof -
    from r have eq: "lst = ?lst" "d' = ?d2"
      by (auto simp: cn Let_def split: if_splits)
    from wf' r have "wf_db d'" by simp
    then have "item_set lst d' = [?i]"
      using none by (simp add: item_set_creation_order eq)
    then show ?thesis by (simp add: eq)
  qed
  have c: "Item_table d' = Item_table d \<and>
        (e = StorageFault \<or>
         e = IntegrityError ForeignKey \<and> \<not> set_option ownr \<subseteq> set (User_table d))"
    if r: "create_new t ownr d = (Inl e, d')"
    using r by (auto simp: cn Let_def split: if_splits)
  have d4: "fst (create_new t ownr d) = Inl StorageFault \<and>
        List_table (snd (create_new t ownr d)) = List_table d"
    if "\<not> storage_ok d"
    using that by (simp add: cn Let_def)
  have d5: "fst (create_new t ownr d) = Inl (IntegrityError ForeignKey) \<and>
        List_table (snd (create_new t ownr d)) = List_table d"
    if "storage_ok d \<and> \<not> set_option ownr \<subseteq> set (User_table d)"
    using that by (simp add: cn Let_def)
  have d6: "fst (create_new t ownr d) = Inl StorageFault \<and>
        List_table (snd (create_new t ownr d)) = List_table d @ [?lst] \<and>
        item_set ?lst (snd (create_new t ownr d)) = []"
    if h: "set_option ownr \<subseteq> set (User_table d) \<and> take 2 (faults d) = [False, True]"
  proof -
    from h have tk: "take 2 (faults d) = [False, True]" by simp
    have ok: "storage_ok d" "\<not> storage_ok ?d1"
      using second_write_refused [OF tk, of ?d1] by simp_all
    with h have r: "create_new t ownr d = (Inl StorageFault, snd (next_fault ?d1))"
      by (simp add: cn Let_def)
    with wf' have "wf_db (snd (next_fault ?d1))" by simp
    then have "item_set ?lst (snd (next_fault ?d1)) = []"
      using none by (simp add: item_set_creation_order)
    with r show ?thesis by simp
  qed
  show ?thesis
  proof (intro conjI impI)
    assume "set_option ownr \<subseteq> set (User_table d) \<and> True \<notin> set (take 2 (faults d))"
    then show "\<exists>lst d'. create_new t ownr d = (Inr lst, d')" by (rule a)
  next
    assume r: "create_new t ownr d = (Inr lst, d')"
    from b [OF r] show "List_owner lst = ownr" by simp
    from b [OF r] show "List_table d' = List_table d @ [lst]" by simp
    from b [OF r] show "\<exists>i. Item_text i = t \<and> Item_table d' = Item_table d @ [i] \<and>
        item_set lst d' = [i]" by simp
  next
    assume r: "create_new t ownr d = (Inl e, d')"
    from c [OF r] show "Item_table d' = Item_table d" by simp
    from c [OF r] show "e = StorageFault \<or>
         e = IntegrityError ForeignKey \<and> \<not> set_option ownr \<subseteq> set (User_table d)" by simp
  next
    assume h: "\<not> storage_ok d"
    from d4 [OF h] show "fst (create_new t ownr d) = Inl StorageFault" by simp
    from d4 [OF h] show "List_table (snd (create_new t ownr d)) = List_table d" by simp
  next
    assume h: "storage_ok d \<and> \<not> set_option ownr \<subseteq> set (User_table d)"
    from d5 [OF h] show "fst (create_new t ownr d) = Inl (IntegrityError ForeignKey)" by simp
    from d5 [OF h] show "List_table (snd (create_new t ownr d)) = List_table d" by simp
  next
    assume h: "set_option ownr \<subseteq> set (User_table d) \<and> take 2 (faults d) = [False, True]"
    from d6 [OF h] show "fst (create_new t ownr d) = Inl StorageFault" by simp
    from d6 [OF h] show "List_table (snd (create_new t ownr d)) = List_table d @ [?lst]" by simp
    from d6 [OF h] show "item_set ?lst (snd (create_new t ownr d)) = []" by simp
  qed
qed

theorem create_new_two_writes_witness:
  "(\<exists>lst d'. create_new ''milk'' (Some ''a@b.com'')
       (run [Call_User_create ''a@b.com''] (empty_db [False, False, False, True])) = (Inr lst, d')) \<and>
   fst (create_new ''milk'' (Some ''a@b.com'') (run [] (empty_db []))) =
     Inl (IntegrityError ForeignKey) \<and>
   List_table (snd (create_new ''milk'' (Some ''a@b.com'') (run [] (empty_db [])))) = [] \<and>
   fst (create_new ''milk'' (Some ''a@b.com'')
       (run [Call_User_create ''a@b.com''] (empty_db [False, False, True]))) = Inl StorageFault \<and>
   List_table (snd (create_new ''milk'' (Some ''a@b.com'')
       (run [Call_User_create ''a@b.com''] (empty_db [False, False, True])))) =
     [\<lparr>List_id = 1, List_owner = Some ''a@b.com''\<rparr>] \<and>
   item_set \<lparr>List_id = 1, List_owner = Some ''a@b.com''\<rparr>
     (snd (create_new ''milk'' (Some ''a@b.com'')
       (run [Call_User_create ''a@b.com''] (empty_db [False, False, True])))) = []"
proof -
  let ?d1 = "run [Call_User_create ''a@b.com''] (empty_db [False, False, False, True])"
  let ?d2 = "run [] (empty_db [])"
  let ?d3 = "run [Call_User_create ''a@b.com''] (empty_db [False, False, True])"
  have e1: "User_table ?d1 = [''a@b.com'']" "faults ?d1 = [False, False, True]"
    by (simp_all add: eval_defs)
  have e2: "User_table ?d2 = []" "faults ?d2 = []" "List_table ?d2 = []"
    by (simp_all add: eval_defs)
  have e3: "User_table ?d3 = [''a@b.com'']" "faults ?d3 = [False, True]"
    "List_table ?d3 = []" "List_seq ?d3 = 1"
    by (simp_all add: eval_defs)
  note t1 = create_new_two_writes [where d = ?d1 and t = "''milk''"
      and ownr = "Some ''a@b.com''", OF refl]
  note t2 = create_new_two_writes [where d = ?d2 and t = "''milk''"
      and ownr = "Some ''a@b.com''", OF refl]
  note t3 = create_new_two_writes [where d = ?d3 and t = "''milk''"
      and ownr = "Some ''a@b.com''", OF refl]
  have h1: "set_option (Some ''a@b.com'') \<subseteq> set (User_table ?d1) \<and>
      True \<notin> set (take 2 (faults ?d1))"
    using e1 by simp
  have h2: "storage_ok ?d2 \<and> \<not> set_option (Some ''a@b.com'') \<subseteq> set (User_table ?d2)"
    using e2 by (simp add: storage_ok_faults)
  have h3: "set_option (Some ''a@b.com'') \<subseteq> set (User_table ?d3) \<and>
      take 2 (faults ?d3) = [False, True]"
    using e3 by simp
  from t1 [THEN conjunct1, THEN mp, OF h1]
  have c1: "\<exists>lst d'. create_new ''milk'' (Some ''a@b.com'') ?d1 = (Inr lst, d')" .
  from t2 [THEN conjunct2, THEN conjunct2, THEN conjunct2, THEN conjunct2, THEN conjunct1,
      THEN mp, OF h2]
  have c2: "fst (create_new ''milk'' (Some ''a@b.com'') ?d2) = Inl (IntegrityError ForeignKey) \<and>
      List_table (snd (create_new ''milk'' (Some ''a@b.com'') ?d2)) = List_table ?d2" .
  from t3 [THEN conjunct2, THEN conjunct2, THEN conjunct2, THEN conjunct2, THEN conjunct2,
      THEN mp, OF h3]
  have c3: "fst (create_new ''milk'' (Some ''a@b.com'') ?d3) = Inl StorageFault \<and>
      List_table (snd (create_new ''milk'' (Some ''a@b.com'') ?d3)) =
        List_table ?d3 @ [\<lparr>List_id = List_seq ?d3, List_owner = Some ''a@b.com''\<rparr>] \<and>
      item_set \<lparr>List_id = List_seq ?d3, List_owner = Some ''a@b.com''\<rparr>
        (snd (create_new ''milk'' (Some ''a@b.com'') ?d3)) = []" .
  from c1 c2 c3 e2 e3 show ?thesis
    by simp
qed

section \<open>The name of a list\<close>

lemma name_cases:
  "name lst d = (case item_set lst d of [] \<Rightarrow> Inl AttributeError | i # _ \<Rightarrow> Inr (Item_text i))"
  by (simp add: name_def first_def split: list.splits)

text \<open>
  Claim C9.  The name of a list is a partial operation: on a list with zero items it
  raises (\<open>first()\<close> yields \<open>None\<close>, whose \<open>text\<close> cannot be read), and on a list
  with items it is the text of the first.  Lists with zero items can be made through
  the model interface: in every database that the application reaches,
  \<open>List.objects.create\<close>, for an owner that is absent or a stored user and when the
  storage engine serves it, returns a list that has no items and whose name raises.
\<close>

theorem name_needs_an_item:
  assumes "d = run cs (empty_db fs)"
  shows "(item_set lst d = [] \<longrightarrow> name lst d = Inl AttributeError) \<and>
     (item_set lst d \<noteq> [] \<longrightarrow> name lst d = Inr (Item_text (hd (item_set lst d)))) \<and>
     (storage_ok d \<and> set_option ownr \<subseteq> set (User_table d) \<longrightarrow>
        (\<exists>new d'. List_objects_create ownr d = (Inr new, d') \<and>
           item_set new d' = [] \<and> name new d' = Inl AttributeError))"
proof (intro conjI impI)
  show "name lst d = Inl AttributeError" if "item_set lst d = []"
    using that by (simp add: name_cases)
  show "name lst d = Inr (Item_text (hd (item_set lst d)))" if "item_set lst d \<noteq> []"
    using that by (cases "item_set lst d") (simp_all add: name_cases)
  assume ok: "storage_ok d \<and> set_option ownr \<subseteq> set (User_table d)"
  have wf: "wf_db d" using assms by (simp add: wf_db_history)
  let ?new = "\<lparr>List_id = List_seq d, List_owner = ownr\<rparr>"
  let ?d' = "(snd (next_fault d))\<lparr>List_table := List_table d @ [?new],
               List_seq := Suc (List_seq d)\<rparr>"
  from ok have c: "List_objects_create ownr d = (Inr ?new, ?d')"
    by (simp add: List_objects_create_cases Let_def)
  have "wf_db (snd (List_objects_create ownr d))" using wf by (rule wf_db_List)
  then have "wf_db ?d'" by (simp add: c)
  then have e: "item_set ?new ?d' = []"
    using fresh_list_has_no_items [OF wf] by (simp add: item_set_creation_order)
  then have "name ?new ?d' = Inl AttributeError" by (simp add: name_cases)
  with c e show "\<exists>new d'. List_objects_create ownr d = (Inr new, d') \<and>
           item_set new d' = [] \<and> name new d' = Inl AttributeError"
    by blast
qed

theorem name_needs_an_item_witness:
  "name \<lparr>List_id = 2, List_owner = None\<rparr>
      (run [Call_create_new ''milk'' None, Call_List_create None] (empty_db [])) = Inl AttributeError \<and>
   name \<lparr>List_id = 1, List_owner = None\<rparr>
      (run [Call_create_new ''milk'' None, Call_List_create None] (empty_db [])) = Inr ''milk'' \<and>
   (\<exists>new d'. List_objects_create None
      (run [Call_create_new ''milk'' None, Call_List_create None] (empty_db [])) = (Inr new, d') \<and>
           item_set new d' = [] \<and> name new d' = Inl AttributeError)"
  using name_needs_an_item [of
      "run [Call_create_new ''milk'' None, Call_List_create None] (empty_db [])"
      "[Call_create_new ''milk'' None, Call_List_create None]" "[]"
      "\<lparr>List_id = 2, List_owner = None\<rparr>" None]
    name_needs_an_item [of
      "run [Call_create_new ''milk'' None, Call_List_create None] (empty_db [])"
      "[Call_create_new ''milk'' None, Call_List_create None]" "[]"
      "\<lparr>List_id = 1, List_owner = None\<rparr>" None]
  by (simp add: eval_defs)

section \<open>Adding the same text twice\<close>

lemma add_item_existing:
  "t \<noteq> [] \<Longrightarrow> add_item (Some lst) t ownr d =
     (if \<not> storage_ok d then (Inl StorageFault, snd (next_fault d))
      else if (List_id lst, t) \<in> set (map (\<lambda>i. (Item_list i, Item_text i)) (Item_table d))
      then (Inr (Inl DuplicateItemError), snd (next_fault d))
      else if List_id lst \<notin> set (map List_id (List_table d))
      then (Inl (IntegrityError ForeignKey), snd (next_fault d))
      else
        (let row = \<lparr>Item_id = Item_seq d, Item_text = t, Item_list = List_id lst\<rparr>
         in (Inr (Inr row),
             (snd (next_fault d))\<lparr>Item_table := Item_table d @ [row], Item_seq := Suc (Item_seq d)\<rparr>)))"
  by (simp add: add_item_def Item_objects_create_cases Let_def)

text \<open>
  Claim C2.  When a non-empty text has been added to a list with success, adding the
  same text to the same list again fails with \<open>DuplicateItemError\<close> whenever the
  storage engine serves the statement (the only other outcome is the storage fault,
  when it does not), and in every case the tables of lists and items, and so the
  list's items, are exactly as the first add left them.
\<close>

theorem second_add_is_duplicate:
  assumes "t \<noteq> []" and "add_item (Some lst) t ownr d = (Inr (Inr i), d1)"
  shows "(storage_ok d1 \<longrightarrow> fst (add_item (Some lst) t ownr d1) = Inr (Inl DuplicateItemError)) \<and>
     (fst (add_item (Some lst) t ownr d1) = Inr (Inl DuplicateItemError) \<or>
      fst (add_item (Some lst) t ownr d1) = Inl StorageFault) \<and>
     Item_table (snd (add_item (Some lst) t ownr d1)) = Item_table d1 \<and>
     List_table (snd (add_item (Some lst) t ownr d1)) = List_table d1 \<and>
     item_set lst (snd (add_item (Some lst) t ownr d1)) = item_set lst d1"
proof -
  from assms have "(List_id lst, t) \<in> set (map (\<lambda>i. (Item_list i, Item_text i)) (Item_table d1))"
    by (auto simp: add_item_existing Let_def split: if_splits)
  then have "add_item (Some lst) t ownr d1 =
     (if \<not> storage_ok d1 then (Inl StorageFault, snd (next_fault d1))
      else (Inr (Inl DuplicateItemError), snd (next_fault d1)))"
    using assms(1) by (simp add: add_item_existing)
  then show ?thesis by (simp add: item_set_def)
qed

theorem second_add_is_duplicate_witness:
  "(let lst = \<lparr>List_id = 1, List_owner = None\<rparr>;
        d1 = snd (add_item (Some lst) ''buy milk'' None (run [Call_List_create None] (empty_db [])))
    in fst (add_item (Some lst) ''buy milk'' None d1) = Inr (Inl DuplicateItemError) \<and>
       Item_table (snd (add_item (Some lst) ''buy milk'' None d1)) =
         [\<lparr>Item_id = 1, Item_text = ''buy milk'', Item_list = 1\<rparr>] \<and>
       item_set lst (snd (add_item (Some lst) ''buy milk'' None d1)) = item_set lst d1)"
  using second_add_is_duplicate [of "''buy milk''" "\<lparr>List_id = 1, List_owner = None\<rparr>" None
      "run [Call_List_create None] (empty_db [])"
      "\<lparr>Item_id = 1, Item_text = ''buy milk'', Item_list = 1\<rparr>"
      "snd (add_item (Some \<lparr>List_id = 1, List_owner = None\<rparr>) ''buy milk'' None
         (run [Call_List_create None] (empty_db [])))"]
  by (simp add: eval_defs add_item_def)

section \<open>Adding the empty text\<close>

text \<open>
  The check is the validator's: the model layer stores the empty text when it is
  called directly.
\<close>

lemma create_new_stores_empty_text:
  "create_new '''' None (empty_db []) =
     (Inr \<lparr>List_id = 1, List_owner = None\<rparr>,
      \<lparr>List_table = [\<lparr>List_id = 1, List_owner = None\<rparr>],
       Item_table = [\<lparr>Item_id = 1, Item_text = '''', Item_list = 1\<rparr>],
       List_seq = 2, Item_seq = 2, Token_table = [], User_table = [], faults = []\<rparr>)"
  by (simp add: eval_defs)

text \<open>
  Claim C4.  On the new-list path and on the existing-list path alike, and whatever
  the database holds, adding the empty text yields \<open>EmptyItemError\<close> and leaves the
  database as it was, the storage engine not having been asked for anything: no Item
  row and no List row is created.
\<close>

theorem empty_text_is_rejected:
  "add_item list_ref_or_none [] owner_if_new d = (Inr (Inl EmptyItemError), d)"
  by (simp add: add_item_def)

theorem empty_text_is_rejected_witness:
  "add_item None '''' None (empty_db []) = (Inr (Inl EmptyItemError), empty_db []) \<and>
   add_item (Some \<lparr>List_id = 1, List_owner = None\<rparr>) '''' None
       (run [Call_create_new ''milk'' None] (empty_db [False, False, True])) =
     (Inr (Inl EmptyItemError), run [Call_create_new ''milk'' None] (empty_db [False, False, True]))"
  using empty_text_is_rejected [of None None "empty_db []"]
    empty_text_is_rejected [of "Some \<lparr>List_id = 1, List_owner = None\<rparr>" None
      "run [Call_create_new ''milk'' None] (empty_db [False, False, True])"]
  by simp

section \<open>The login email\<close>

lemma Token_objects_create_cases:
  "Token_objects_create new_uid addr d =
     (if \<not> storage_ok d then (Inl StorageFault, snd (next_fault d))
      else (Inr \<lparr>Token_uid = new_uid, Token_email = addr\<rparr>,
            (snd (next_fault d))\<lparr>Token_table := Token_table d @
               [\<lparr>Token_uid = new_uid, Token_email = addr\<rparr>]\<rparr>))"
  unfolding Token_objects_create_def storage_ok_def
  using next_fault_tables [of d]
  by (cases "next_fault d") (auto simp: Let_def)

lemma quote_kept: "set s \<subseteq> set always_safe \<union> set safe \<Longrightarrow> quote s safe = s"
  by (induction s) (auto simp: quote_def)

lemma iri_to_uri_kept: "set s \<subseteq> set always_safe \<union> set iri_safe \<Longrightarrow> iri_to_uri s = s"
  by (simp add: iri_to_uri_def quote_kept)

lemma send_login_email_returns: "POST req ''email'' = Some addr \<Longrightarrow> addr \<noteq> [] \<Longrightarrow> storage_ok d \<Longrightarrow>
    send_mail \<lparr>subject = ''Your login link for Superlists'',
               body = ''Use this link to log in:'' @ [CHR 0x0A, CHR 0x0A] @
                      build_absolute_uri resolve req (reverse_login @ ''?token='' @ new_uid),
               from_email = ''noreply@superlists'',
               recipient_list = [addr]\<rparr> = None \<Longrightarrow>
    send_login_email reverse_login resolve send_mail new_uid req d outbox =
        (Inr (HttpResponseRedirect ''/''), messages_success req confirmation,
         (snd (next_fault d))\<lparr>Token_table := Token_table d @
             [\<lparr>Token_uid = new_uid, Token_email = addr\<rparr>]\<rparr>,
         outbox @ [\<lparr>subject = ''Your login link for Superlists'',
               body = ''Use this link to log in:'' @ [CHR 0x0A, CHR 0x0A] @
                      build_absolute_uri resolve req (reverse_login @ ''?token='' @ new_uid),
               from_email = ''noreply@superlists'',
               recipient_list = [addr]\<rparr>])"
  by (simp add: send_login_email_def Token_objects_create_cases Let_def recipients_def)

lemma send_login_email_returned: "send_login_email reverse_login resolve send_mail new_uid req d outbox =
        (Inr resp, req', d', outbox') \<Longrightarrow>
    (\<exists>addr. POST req ''email'' = Some addr \<and>
       Token_table d' = Token_table d @ [\<lparr>Token_uid = new_uid, Token_email = addr\<rparr>] \<and>
       outbox' = outbox @ (if addr = [] then [] else [\<lparr>subject = ''Your login link for Superlists'',
               body = ''Use this link to log in:'' @ [CHR 0x0A, CHR 0x0A] @
                      build_absolute_uri resolve req (reverse_login @ ''?token='' @ new_uid),
               from_email = ''noreply@superlists'',
               recipient_list = [addr]\<rparr>]))"
proof -
  assume r: "send_login_email reverse_login resolve send_mail new_uid req d outbox =
        (Inr resp, req', d', outbox')"
  then obtain addr where p: "POST req ''email'' = Some addr"
    by (cases "POST req ''email''") (simp_all add: send_login_email_def)
  have ok: "storage_ok d"
  proof (rule ccontr)
    assume "\<not> storage_ok d"
    with r p show False
      by (simp add: send_login_email_def Token_objects_create_cases)
  qed
  let ?m = "\<lparr>subject = ''Your login link for Superlists'',
               body = ''Use this link to log in:'' @ [CHR 0x0A, CHR 0x0A] @
                      build_absolute_uri resolve req (reverse_login @ ''?token='' @ new_uid),
               from_email = ''noreply@superlists'',
               recipient_list = [addr]\<rparr>"
  have sent: "send_mail ?m = None"
  proof (cases "send_mail ?m")
    case None
    then show ?thesis .
  next
    case (Some e)
    with r p ok show ?thesis
      by (simp add: send_login_email_def Token_objects_create_cases Let_def)
  qed
  from r p ok sent
  have "d' = (snd (next_fault d))\<lparr>Token_table := Token_table d @
             [\<lparr>Token_uid = new_uid, Token_email = addr\<rparr>]\<rparr>"
    and "outbox' = outbox @ (if recipients ?m = [] then [] else [?m])"
    by (auto simp: send_login_email_def Token_objects_create_cases Let_def)
  then have "Token_table d' = Token_table d @ [\<lparr>Token_uid = new_uid, Token_email = addr\<rparr>]"
    and "outbox' = outbox @ (if addr = [] then [] else [?m])"
    by (simp_all add: recipients_def)
  with p show ?thesis by blast
qed


text \<open>
  A uid with a space is mailed with the space written \<open>%20\<close>.
\<close>

lemma login_url_is_percent_encoded:
  "build_absolute_uri resolve_none
     \<lparr>GET = Map.empty, POST = Map.empty, scheme_host = ''http://testserver'',
      session_user = None, messages = []\<rparr>
     (''/accounts/login'' @ ''?token='' @ ''a b'') =
   ''http://testserver/accounts/login?token=a%20b''"
  by (simp add: build_absolute_uri_def plain_absolute_path_def iri_to_uri_def quote_def
      always_safe_def iri_safe_def hex_digit_def)

text \<open>
  Against claim C7 as stated (for every submitted email the login URL is contained in
  the message sent to that email): for the empty email the view stores the token,
  queues the confirmation and returns, and no message has been sent.
\<close>

theorem login_link_is_mailed_counterexample:
  "send_login_email ''/accounts/login'' resolve_none mailer_up ''abcd123''
      \<lparr>GET = Map.empty, POST = [''email'' \<mapsto> []],
       scheme_host = ''http://testserver'', session_user = None, messages = []\<rparr>
      (empty_db []) [] =
     (Inr (HttpResponseRedirect ''/''),
      \<lparr>GET = Map.empty, POST = [''email'' \<mapsto> []],
       scheme_host = ''http://testserver'', session_user = None,
       messages = [(SUCCESS, confirmation)]\<rparr>,
      \<lparr>List_table = [], Item_table = [], List_seq = 1, Item_seq = 1,
       Token_table = [\<lparr>Token_uid = ''abcd123'', Token_email = []\<rparr>],
       User_table = [], faults = []\<rparr>,
      [])"
  by (simp add: send_login_email_def Token_objects_create_def messages_success_def
      recipients_def mailer_up_def eval_defs)

text \<open>
  Claim C7, amended.  For a request that submits a non-empty email: when the storage
  engine serves the INSERT of the token and the call of the mailer returns,
  \<open>send_login_email\<close> returns, having stored one new Token that records the
  submitted email and having sent one message, to that email alone, whose body ends
  with the login URL.  Whenever the view returns, for any email, it has stored that
  Token, and it has sent that one message if the email is not empty and none if it
  is.  The login URL is \<open>build_absolute_uri\<close> of the path of the \<open>login\<close> route
  followed by \<open>?token=\<close> and the token's uid as a string: when that location is a
  plain absolute path, the URL is the site root followed by the location, percent
  encoded by \<open>iri_to_uri\<close>; when moreover site root, path and uid hold only
  characters that \<open>iri_to_uri\<close> keeps, it is literally the site root, the path,
  \<open>?token=\<close> and the uid.
\<close>

theorem login_link_is_mailed:
  "(POST req ''email'' = Some addr \<and> addr \<noteq> [] \<and> storage_ok d \<and>
    send_mail \<lparr>subject = ''Your login link for Superlists'',
               body = ''Use this link to log in:'' @ [CHR 0x0A, CHR 0x0A] @
                      build_absolute_uri resolve req (reverse_login @ ''?token='' @ new_uid),
               from_email = ''noreply@superlists'',
               recipient_list = [addr]\<rparr> = None \<longrightarrow>
    send_login_email reverse_login resolve send_mail new_uid req d outbox =
        (Inr (HttpResponseRedirect ''/''), messages_success req confirmation,
         (snd (next_fault d))\<lparr>Token_table := Token_table d @
             [\<lparr>Token_uid = new_uid, Token_email = addr\<rparr>]\<rparr>,
         outbox @ [\<lparr>subject = ''Your login link for Superlists'',
               body = ''Use this link to log in:'' @ [CHR 0x0A, CHR 0x0A] @
                      build_absolute_uri resolve req (reverse_login @ ''?token='' @ new_uid),
               from_email = ''noreply@superlists'',
               recipient_list = [addr]\<rparr>])) \<and>
   (send_login_email reverse_login resolve send_mail new_uid req d outbox =
        (Inr resp, req', d', outbox') \<longrightarrow>
    (\<exists>addr. POST req ''email'' = Some addr \<and>
       Token_table d' = Token_table d @ [\<lparr>Token_uid = new_uid, Token_email = addr\<rparr>] \<and>
       outbox' = outbox @
         (if addr = [] then []
          else [\<lparr>subject = ''Your login link for Superlists'',
                 body = ''Use this link to log in:'' @ [CHR 0x0A, CHR 0x0A] @
                        build_absolute_uri resolve req (reverse_login @ ''?token='' @ new_uid),
                 from_email = ''noreply@superlists'',
                 recipient_list = [addr]\<rparr>]))) \<and>
   (plain_absolute_path (reverse_login @ ''?token='' @ new_uid) \<longrightarrow>
    build_absolute_uri resolve req (reverse_login @ ''?token='' @ new_uid) =
      iri_to_uri (scheme_host req @ reverse_login @ ''?token='' @ new_uid)) \<and>
   (plain_absolute_path (reverse_login @ ''?token='' @ new_uid) \<and>
    set (scheme_host req @ reverse_login @ ''?token='' @ new_uid)
      \<subseteq> set always_safe \<union> set iri_safe \<longrightarrow>
    build_absolute_uri resolve req (reverse_login @ ''?token='' @ new_uid) =
      scheme_host req @ reverse_login @ ''?token='' @ new_uid)"
proof (intro conjI impI)
  assume "POST req ''email'' = Some addr \<and> addr \<noteq> [] \<and> storage_ok d \<and>
    send_mail \<lparr>subject = ''Your login link for Superlists'',
               body = ''Use this link to log in:'' @ [CHR 0x0A, CHR 0x0A] @
                      build_absolute_uri resolve req (reverse_login @ ''?token='' @ new_uid),
               from_email = ''noreply@superlists'',
               recipient_list = [addr]\<rparr> = None"
  then show "send_login_email reverse_login resolve send_mail new_uid req d outbox =
        (Inr (HttpResponseRedirect ''/''), messages_success req confirmation,
         (snd (next_fault d))\<lparr>Token_table := Token_table d @
             [\<lparr>Token_uid = new_uid, Token_email = addr\<rparr>]\<rparr>,
         outbox @ [\<lparr>subject = ''Your login link for Superlists'',
               body = ''Use this link to log in:'' @ [CHR 0x0A, CHR 0x0A] @
                      build_absolute_uri resolve req (reverse_login @ ''?token='' @ new_uid),
               from_email = ''noreply@superlists'',
               recipient_list = [addr]\<rparr>])"
    by (intro send_login_email_returns) simp_all
next
  assume "send_login_email reverse_login resolve send_mail new_uid req d outbox =
        (Inr resp, req', d', outbox')"
  then show "\<exists>addr. POST req ''email'' = Some addr \<and>
       Token_table d' = Token_table d @ [\<lparr>Token_uid = new_uid, Token_email = addr\<rparr>] \<and>
       outbox' = outbox @
         (if addr = [] then []
          else [\<lparr>subject = ''Your login link for Superlists'',
                 body = ''Use this link to log in:'' @ [CHR 0x0A, CHR 0x0A] @
                        build_absolute_uri resolve req (reverse_login @ ''?token='' @ new_uid),
                 from_email = ''noreply@superlists'',
                 recipient_list = [addr]\<rparr>])"
    by (rule send_login_email_returned)
next
  assume "plain_absolute_path (reverse_login @ ''?token='' @ new_uid)"
  then show "build_absolute_uri resolve req (reverse_login @ ''?token='' @ new_uid) =
      iri_to_uri (scheme_host req @ reverse_login @ ''?token='' @ new_uid)"
    by (simp add: build_absolute_uri_def)
next
  assume h: "plain_absolute_path (reverse_login @ ''?token='' @ new_uid) \<and>
    set (scheme_host req @ reverse_login @ ''?token='' @ new_uid)
      \<subseteq> set always_safe \<union> set iri_safe"
  then have "iri_to_uri (scheme_host req @ reverse_login @ ''?token='' @ new_uid) =
      scheme_host req @ reverse_login @ ''?token='' @ new_uid"
    by (intro iri_to_uri_kept) simp
  with h show "build_absolute_uri resolve req (reverse_login @ ''?token='' @ new_uid) =
      scheme_host req @ reverse_login @ ''?token='' @ new_uid"
    by (simp add: build_absolute_uri_def)
qed

theorem login_link_is_mailed_witness:
  "send_login_email ''/accounts/login'' resolve_none mailer_up ''abcd123''
      \<lparr>GET = Map.empty, POST = [''email'' \<mapsto> ''edith@example.com''],
       scheme_host = ''http://testserver'', session_user = None, messages = []\<rparr>
      (empty_db []) [] =
     (Inr (HttpResponseRedirect ''/''),
      \<lparr>GET = Map.empty, POST = [''email'' \<mapsto> ''edith@example.com''],
       scheme_host = ''http://testserver'', session_user = None,
       messages = [(SUCCESS, confirmation)]\<rparr>,
      \<lparr>List_table = [], Item_table = [], List_seq = 1, Item_seq = 1,
       Token_table = [\<lparr>Token_uid = ''abcd123'', Token_email = ''edith@example.com''\<rparr>],
       User_table = [], faults = []\<rparr>,
      [\<lparr>subject = ''Your login link for Superlists'',
        body = ''Use this link to log in:'' @ [CHR 0x0A, CHR 0x0A] @
               ''http://testserver/accounts/login?token=abcd123'',
        from_email = ''noreply@superlists'',
        recipient_list = [''edith@example.com'']\<rparr>])"
proof -
  let ?req = "\<lparr>GET = Map.empty, POST = [''email'' \<mapsto> ''edith@example.com''],
       scheme_host = ''http://testserver'', session_user = None, messages = []\<rparr>"
  note t = login_link_is_mailed [where req = ?req and addr = "''edith@example.com''"
      and d = "empty_db []" and send_mail = mailer_up and resolve = resolve_none
      and reverse_login = "''/accounts/login''" and new_uid = "''abcd123''" and outbox = "[]"]
  have p: "plain_absolute_path (''/accounts/login'' @ ''?token='' @ ''abcd123'') \<and>
      set (scheme_host ?req @ ''/accounts/login'' @ ''?token='' @ ''abcd123'')
        \<subseteq> set always_safe \<union> set iri_safe"
    by (simp add: plain_absolute_path_def always_safe_def iri_safe_def)
  from t [THEN conjunct2, THEN conjunct2, THEN conjunct2, THEN mp, OF p]
  have url: "build_absolute_uri resolve_none ?req (''/accounts/login'' @ ''?token='' @ ''abcd123'') =
      ''http://testserver/accounts/login?token=abcd123''"
    by simp
  have h: "POST ?req ''email'' = Some ''edith@example.com'' \<and> ''edith@example.com'' \<noteq> [] \<and>
      storage_ok (empty_db []) \<and>
      mailer_up \<lparr>subject = ''Your login link for Superlists'',
               body = ''Use this link to log in:'' @ [CHR 0x0A, CHR 0x0A] @
                      build_absolute_uri resolve_none ?req
                        (''/accounts/login'' @ ''?token='' @ ''abcd123''),
               from_email = ''noreply@superlists'',
               recipient_list = [''edith@example.com'']\<rparr> = None"
    by (simp add: mailer_up_def eval_defs)
  from t [THEN conjunct1, THEN mp, OF h] url show ?thesis
    by (simp add: messages_success_def eval_defs)
qed

text \<open>
  Claim C8.  For every submitted email on which the token is stored and the mailer
  returns, \<open>send_login_email\<close> answers with the redirect to the site root and queues
  the one confirmation text; neither depends on the email, on the users that exist or
  on anything else in the database.  When the mailer raises, the view raises the
  same exception, queues no confirmation and records no sent message.
\<close>

theorem confirmation_whatever_the_email:
  "(POST req ''email'' = Some addr \<and> storage_ok d \<and>
    send_mail \<lparr>subject = ''Your login link for Superlists'',
               body = ''Use this link to log in:'' @ [CHR 0x0A, CHR 0x0A] @
                      build_absolute_uri resolve req (reverse_login @ ''?token='' @ new_uid),
               from_email = ''noreply@superlists'',
               recipient_list = [addr]\<rparr> = None \<longrightarrow>
    fst (send_login_email reverse_login resolve send_mail new_uid req d outbox) =
      Inr (HttpResponseRedirect ''/'') \<and>
    fst (snd (send_login_email reverse_login resolve send_mail new_uid req d outbox)) =
      req\<lparr>messages := messages req @ [(SUCCESS, confirmation)]\<rparr>) \<and>
   (POST req ''email'' = Some addr \<and> storage_ok d \<and>
    send_mail \<lparr>subject = ''Your login link for Superlists'',
               body = ''Use this link to log in:'' @ [CHR 0x0A, CHR 0x0A] @
                      build_absolute_uri resolve req (reverse_login @ ''?token='' @ new_uid),
               from_email = ''noreply@superlists'',
               recipient_list = [addr]\<rparr> = Some e \<longrightarrow>
    fst (send_login_email reverse_login resolve send_mail new_uid req d outbox) = Inl e \<and>
    fst (snd (send_login_email reverse_login resolve send_mail new_uid req d outbox)) = req \<and>
    snd (snd (snd (send_login_email reverse_login resolve send_mail new_uid req d outbox))) = outbox)"
  by (simp add: send_login_email_def Token_objects_create_cases Let_def messages_success_def)

theorem confirmation_whatever_the_email_witness:
  "fst (send_login_email ''/accounts/login'' resolve_none (\<lambda>m. None) ''abcd123''
      \<lparr>GET = Map.empty, POST = [''email'' \<mapsto> ''edith@example.com''],
       scheme_host = ''http://testserver'', session_user = None, messages = []\<rparr>
      ((empty_db [])\<lparr>User_table := [''edith@example.com'']\<rparr>) []) =
     Inr (HttpResponseRedirect ''/'') \<and>
   fst (send_login_email ''/accounts/login'' resolve_none (\<lambda>m. None) ''wxyz789''
      \<lparr>GET = Map.empty, POST = [''email'' \<mapsto> ''nobody@nowhere''],
       scheme_host = ''http://testserver'', session_user = None, messages = []\<rparr>
      (empty_db []) []) =
     Inr (HttpResponseRedirect ''/'') \<and>
   messages (fst (snd (send_login_email ''/accounts/login'' resolve_none (\<lambda>m. None) ''abcd123''
      \<lparr>GET = Map.empty, POST = [''email'' \<mapsto> ''edith@example.com''],
       scheme_host = ''http://testserver'', session_user = None, messages = []\<rparr>
      ((empty_db [])\<lparr>User_table := [''edith@example.com'']\<rparr>) []))) =
     [(SUCCESS, confirmation)] \<and>
   messages (fst (snd (send_login_email ''/accounts/login'' resolve_none (\<lambda>m. None) ''wxyz789''
      \<lparr>GET = Map.empty, POST = [''email'' \<mapsto> ''nobody@nowhere''],
       scheme_host = ''http://testserver'', session_user = None, messages = []\<rparr>
      (empty_db []) []))) =
     [(SUCCESS, confirmation)] \<and>
   fst (send_login_email ''/accounts/login'' resolve_none (\<lambda>m. Some MailerFailure) ''wxyz789''
      \<lparr>GET = Map.empty, POST = [''email'' \<mapsto> ''nobody@nowhere''],
       scheme_host = ''http://testserver'', session_user = None, messages = []\<rparr>
      (empty_db []) []) =
     Inl MailerFailure"
  using confirmation_whatever_the_email [where req = "\<lparr>GET = Map.empty,
       POST = [''email'' \<mapsto> ''edith@example.com''],
       scheme_host = ''http://testserver'', session_user = None, messages = []\<rparr>"
     and addr = "''edith@example.com''"
     and d = "(empty_db [])\<lparr>User_table := [''edith@example.com'']\<rparr>"
     and send_mail = "\<lambda>m. None"
     and resolve = resolve_none and reverse_login = "''/accounts/login''" and new_uid = "''abcd123''" and outbox = "[]"]
    confirmation_whatever_the_email [where req = "\<lparr>GET = Map.empty,
       POST = [''email'' \<mapsto> ''nobody@nowhere''],
       scheme_host = ''http://testserver'', session_user = None, messages = []\<rparr>"
     and addr = "''nobody@nowhere''" and d = "empty_db []" and send_mail = "\<lambda>m. None"
     and resolve = resolve_none and reverse_login = "''/accounts/login''" and new_uid = "''wxyz789''" and outbox = "[]"]
    confirmation_whatever_the_email [where req = "\<lparr>GET = Map.empty,
       POST = [''email'' \<mapsto> ''nobody@nowhere''],
       scheme_host = ''http://testserver'', session_user = None, messages = []\<rparr>"
     and addr = "''nobody@nowhere''" and d = "empty_db []"
     and send_mail = "\<lambda>m. Some MailerFailure" and e = MailerFailure
     and resolve = resolve_none and reverse_login = "''/accounts/login''" and new_uid = "''wxyz789''" and outbox = "[]"]
  by (simp add: eval_defs)

section \<open>The login view\<close>

lemma authenticate_cases:
  "authenticate uid_opt d =
     (case uid_opt of
        None \<Rightarrow> (Inr None, d)
      | Some u \<Rightarrow>
          if u = [] then (Inr None, d)
          else
            (case find_by_uid u d of
               None \<Rightarrow> (Inr None, d)
             | Some token \<Rightarrow>
                 if Token_email token \<in> set (User_table d)
                 then (Inr (Some (Token_email token)), d)
                 else if \<not> storage_ok d then (Inl StorageFault, snd (next_fault d))
                 else (Inr (Some (Token_email token)),
                       (snd (next_fault d))\<lparr>User_table := User_table d @ [Token_email token]\<rparr>)))"
  unfolding authenticate_def storage_ok_def
  using next_fault_tables [of d]
  by (cases "next_fault d") (auto split: option.splits)

text \<open>
  Claim C6.  With the Authenticator of the spec as the backend, the login view raises
  nothing but a storage fault, and then leaves the request as it was.  For a token
  parameter that is absent, empty or unknown it returns the redirect with the request
  and the database unchanged: no session is established.  For the uid of a stored
  token, when the token's user exists or the storage engine serves its creation, it
  returns the redirect with the session bound to the user of the token's email.  For
  any backend: when the backend resolves no user the request is unchanged, when it
  resolves a user the session is bound to exactly that user, and the view raises only
  what the backend raised.
\<close>

theorem login_degrades_to_anonymous:
  "(login authenticate req d = (Inl e, req', d') \<longrightarrow> e = StorageFault \<and> req' = req) \<and>
   (GET req ''token'' = None \<or> GET req ''token'' = Some [] \<or>
    (\<exists>u. GET req ''token'' = Some u \<and> find_by_uid u d = None) \<longrightarrow>
      login authenticate req d = (Inr (HttpResponseRedirect ''/''), req, d)) \<and>
   (GET req ''token'' = Some u \<and> u \<noteq> [] \<and> find_by_uid u d = Some token \<and>
    (Token_email token \<in> set (User_table d) \<or> storage_ok d) \<longrightarrow>
      fst (login authenticate req d) = Inr (HttpResponseRedirect ''/'') \<and>
      fst (snd (login authenticate req d)) = req\<lparr>session_user := Some (Token_email token)\<rparr>) \<and>
   (backend (GET req ''token'') d = (Inr None, d1) \<longrightarrow>
      login backend req d = (Inr (HttpResponseRedirect ''/''), req, d1)) \<and>
   (backend (GET req ''token'') d = (Inr (Some usr), d1) \<longrightarrow>
      login backend req d =
        (Inr (HttpResponseRedirect ''/''), req\<lparr>session_user := Some usr\<rparr>, d1)) \<and>
   (login backend req d = (Inl e, req', d') \<longrightarrow> backend (GET req ''token'') d = (Inl e, d'))"
proof -
  have 1: "login authenticate req d = (Inl e, req', d') \<longrightarrow> e = StorageFault \<and> req' = req"
    by (auto simp: login_def authenticate_cases Let_def split: option.splits if_splits)
  have 2: "GET req ''token'' = None \<or> GET req ''token'' = Some [] \<or>
    (\<exists>u. GET req ''token'' = Some u \<and> find_by_uid u d = None) \<longrightarrow>
      login authenticate req d = (Inr (HttpResponseRedirect ''/''), req, d)"
    by (auto simp: login_def authenticate_cases Let_def)
  have 3: "GET req ''token'' = Some u \<and> u \<noteq> [] \<and> find_by_uid u d = Some token \<and>
    (Token_email token \<in> set (User_table d) \<or> storage_ok d) \<longrightarrow>
      fst (login authenticate req d) = Inr (HttpResponseRedirect ''/'') \<and>
      fst (snd (login authenticate req d)) = req\<lparr>session_user := Some (Token_email token)\<rparr>"
    by (auto simp: login_def authenticate_cases Let_def auth_login_def)
  have 4: "backend (GET req ''token'') d = (Inr None, d1) \<longrightarrow>
      login backend req d = (Inr (HttpResponseRedirect ''/''), req, d1)"
    by (simp add: login_def)
  have 5: "backend (GET req ''token'') d = (Inr (Some usr), d1) \<longrightarrow>
      login backend req d =
        (Inr (HttpResponseRedirect ''/''), req\<lparr>session_user := Some usr\<rparr>, d1)"
    by (simp add: login_def auth_login_def)
  have 6: "login backend req d = (Inl e, req', d') \<longrightarrow> backend (GET req ''token'') d = (Inl e, d')"
    by (auto simp: login_def Let_def split: prod.splits sum.splits)
  from 1 2 3 4 5 6 show ?thesis by blast
qed

theorem login_degrades_to_anonymous_witness:
  "login authenticate
      \<lparr>GET = [''token'' \<mapsto> ''no-such-uid''], POST = Map.empty,
       scheme_host = ''http://testserver'', session_user = None, messages = []\<rparr>
      ((empty_db [])\<lparr>Token_table := [\<lparr>Token_uid = ''abcd123'', Token_email = ''edith@example.com''\<rparr>]\<rparr>) =
     (Inr (HttpResponseRedirect ''/''),
      \<lparr>GET = [''token'' \<mapsto> ''no-such-uid''], POST = Map.empty,
       scheme_host = ''http://testserver'', session_user = None, messages = []\<rparr>,
      (empty_db [])\<lparr>Token_table := [\<lparr>Token_uid = ''abcd123'', Token_email = ''edith@example.com''\<rparr>]\<rparr>) \<and>
   session_user (fst (snd (login authenticate
      \<lparr>GET = [''token'' \<mapsto> ''abcd123''], POST = Map.empty,
       scheme_host = ''http://testserver'', session_user = None, messages = []\<rparr>
      ((empty_db [])\<lparr>Token_table := [\<lparr>Token_uid = ''abcd123'', Token_email = ''edith@example.com''\<rparr>]\<rparr>)))) =
     Some ''edith@example.com'' \<and>
   fst (login authenticate
      \<lparr>GET = [''token'' \<mapsto> ''abcd123''], POST = Map.empty,
       scheme_host = ''http://testserver'', session_user = None, messages = []\<rparr>
      ((empty_db [True])\<lparr>Token_table := [\<lparr>Token_uid = ''abcd123'', Token_email = ''edith@example.com''\<rparr>]\<rparr>)) =
     Inl StorageFault"
  using login_degrades_to_anonymous [where req = "\<lparr>GET = [''token'' \<mapsto> ''no-such-uid''],
       POST = Map.empty, scheme_host = ''http://testserver'', session_user = None, messages = []\<rparr>"
     and d = "(empty_db [])\<lparr>Token_table := [\<lparr>Token_uid = ''abcd123'', Token_email = ''edith@example.com''\<rparr>]\<rparr>"]
    login_degrades_to_anonymous [where req = "\<lparr>GET = [''token'' \<mapsto> ''abcd123''],
       POST = Map.empty, scheme_host = ''http://testserver'', session_user = None, messages = []\<rparr>"
     and d = "(empty_db [])\<lparr>Token_table := [\<lparr>Token_uid = ''abcd123'', Token_email = ''edith@example.com''\<rparr>]\<rparr>"
     and u = "''abcd123''"
     and token = "\<lparr>Token_uid = ''abcd123'', Token_email = ''edith@example.com''\<rparr>"]
    login_degrades_to_anonymous [where req = "\<lparr>GET = [''token'' \<mapsto> ''abcd123''],
       POST = Map.empty, scheme_host = ''http://testserver'', session_user = None, messages = []\<rparr>"
     and d = "(empty_db [True])\<lparr>Token_table := [\<lparr>Token_uid = ''abcd123'', Token_email = ''edith@example.com''\<rparr>]\<rparr>"
     and e = StorageFault
     and req' = "\<lparr>GET = [''token'' \<mapsto> ''abcd123''],
       POST = Map.empty, scheme_host = ''http://testserver'', session_user = None, messages = []\<rparr>"
     and d' = "(empty_db [])\<lparr>Token_table := [\<lparr>Token_uid = ''abcd123'', Token_email = ''edith@example.com''\<rparr>]\<rparr>"]
  by (simp add: eval_defs find_by_uid_def login_def authenticate_def auth_login_def)

text \<open>
  Claim C10.  Whatever the backend and whatever the token parameter, two requests to
  the login view that are answered are answered with the same response, the redirect
  to the site root; the view answers exactly when the backend does not raise, and the
  response does not depend on whether the backend resolved a user.  Only the session
  differs.
\<close>

theorem login_response_is_the_same:
  "(login backend1 req1 d1 = (Inr resp1, req1', d1') \<and>
    login backend2 req2 d2 = (Inr resp2, req2', d2') \<longrightarrow>
      resp1 = resp2 \<and> resp1 = HttpResponseRedirect ''/'') \<and>
   fst (login backend req d) =
     (case fst (backend (GET req ''token'') d) of
        Inl e \<Rightarrow> Inl e
      | Inr usr \<Rightarrow> Inr (HttpResponseRedirect ''/''))"
  by (auto simp: login_def Let_def split: prod.splits sum.splits)

theorem login_response_is_the_same_witness:
  "fst (login authenticate
      \<lparr>GET = [''token'' \<mapsto> ''abcd123''], POST = Map.empty,
       scheme_host = ''http://testserver'', session_user = None, messages = []\<rparr>
      ((empty_db [])\<lparr>Token_table := [\<lparr>Token_uid = ''abcd123'', Token_email = ''edith@example.com''\<rparr>]\<rparr>)) =
   fst (login authenticate
      \<lparr>GET = Map.empty, POST = Map.empty,
       scheme_host = ''http://testserver'', session_user = None, messages = []\<rparr>
      ((empty_db [])\<lparr>Token_table := [\<lparr>Token_uid = ''abcd123'', Token_email = ''edith@example.com''\<rparr>]\<rparr>)) \<and>
   session_user (fst (snd (login authenticate
      \<lparr>GET = [''token'' \<mapsto> ''abcd123''], POST = Map.empty,
       scheme_host = ''http://testserver'', session_user = None, messages = []\<rparr>
      ((empty_db [])\<lparr>Token_table := [\<lparr>Token_uid = ''abcd123'', Token_email = ''edith@example.com''\<rparr>]\<rparr>)))) \<noteq>
   session_user (fst (snd (login authenticate
      \<lparr>GET = Map.empty, POST = Map.empty,
       scheme_host = ''http://testserver'', session_user = None, messages = []\<rparr>
      ((empty_db [])\<lparr>Token_table := [\<lparr>Token_uid = ''abcd123'', Token_email = ''edith@example.com''\<rparr>]\<rparr>))))"
  using login_response_is_the_same [where backend = authenticate
     and req = "\<lparr>GET = [''token'' \<mapsto> ''abcd123''], POST = Map.empty,
       scheme_host = ''http://testserver'', session_user = None, messages = []\<rparr>"
     and d = "(empty_db [])\<lparr>Token_table := [\<lparr>Token_uid = ''abcd123'', Token_email = ''edith@example.com''\<rparr>]\<rparr>"]
    login_response_is_the_same [where backend = authenticate
     and req = "\<lparr>GET = Map.empty, POST = Map.empty,
       scheme_host = ''http://testserver'', session_user = None, messages = []\<rparr>"
     and d = "(empty_db [])\<lparr>Token_table := [\<lparr>Token_uid = ''abcd123'', Token_email = ''edith@example.com''\<rparr>]\<rparr>"]
  by (simp add: eval_defs find_by_uid_def login_def authenticate_def auth_login_def)

end
